theory Spec2Isabelle
  imports Main
begin

section \<open>The download session of platform/qt\_download.cpp\<close>

text \<open>
  The file \<^verbatim>\<open>platform/qt_download.cpp\<close> implements one download session as a Qt object
  (\<^verbatim>\<open>QtDownload\<close>) that is driven by the signals of a \<^verbatim>\<open>QNetworkReply\<close>. The model is
  a state record for the object together with the disk and the trace of everything the
  object does that is visible from outside (requests issued, callbacks invoked); every slot
  is a function on that record, and a session is the constructor followed by a list of
  signals.
\<close>

subsection \<open>Qt collaborators: strings, the disk and QFile\<close>

type_synonym bytes = string
type_synonym path = string

text \<open>
  \<^verbatim>\<open>QString::lastIndexOf(str)\<close> is the index of the last occurrence of \<open>str\<close>, or \<open>-1\<close>;
  \<^verbatim>\<open>QString::left(n)\<close> is the first \<open>n\<close> characters, and the entire string when \<open>n\<close> is
  negative or not smaller than the size. The search runs downwards from the end. The needle
  of the source is the non-empty macro \<^verbatim>\<open>DOWNLOADING_FILE_EXTENSION\<close>.
\<close>

fun lastIndexOf_from :: "string \<Rightarrow> string \<Rightarrow> nat \<Rightarrow> int" where
  "lastIndexOf_from s e 0 = (if take (length e) s = e then 0 else - 1)"
| "lastIndexOf_from s e (Suc i) =
     (if take (length e) (drop (Suc i) s) = e then int (Suc i) else lastIndexOf_from s e i)"

definition lastIndexOf :: "string \<Rightarrow> string \<Rightarrow> int" where
  "lastIndexOf s e = lastIndexOf_from s e (length s)"

definition left :: "int \<Rightarrow> string \<Rightarrow> string" where
  "left n s = (if n < 0 \<or> int (length s) \<le> n then s else take (nat n) s)"

text \<open>\<^verbatim>\<open>QString("%1").arg(n)\<close> for a non-negative \<^verbatim>\<open>qint64\<close>: the decimal digits of \<open>n\<close>.\<close>

fun arg_decimal :: "nat \<Rightarrow> string" where
  "arg_decimal n =
     (if n < 10 then [''0123456789'' ! n]
      else arg_decimal (n div 10) @ [''0123456789'' ! (n mod 10)])"

declare arg_decimal.simps [simp del]

text \<open>
  The disk maps a path to the bytes of the file there. \<open>locked\<close> lists the paths that the
  process may not open for writing, truncate, remove or rename away (a file held by another
  process, a directory without permission); apart from the empty name, which names no
  file, it is the one source of failure of the file operations, and it does not change
  while a session runs.
\<close>

record disk =
  files :: "path \<rightharpoonup> bytes"
  locked :: "path list"

definition file_size :: "disk \<Rightarrow> path \<Rightarrow> nat" where
  "file_size d p = (case files d p of None \<Rightarrow> 0 | Some c \<Rightarrow> length c)"

text \<open>Removing the file at a path: true iff the file existed and was removed.\<close>

definition remove_path :: "path \<Rightarrow> disk \<Rightarrow> bool \<times> disk" where
  "remove_path p d =
     (if files d p \<noteq> None \<and> p \<notin> set (locked d)
      then (True, d\<lparr>files := (files d)(p := None)\<rparr>)
      else (False, d))"

text \<open>
  A \<^verbatim>\<open>QFile\<close> object: the name it refers to, whether the device is open, and the position
  of the device. The source opens it for writing only, so one flag stands for the open mode.
  The name of the object is the caller's file name followed by the extension; \<open>open\<close>,
  \<open>write\<close>, \<open>resize\<close> and the member \<open>remove\<close> act on that name, which is not empty
  since the extension is not. The destination name is the caller's and may be empty.
  As Qt documents them:
  \<^item> \<^verbatim>\<open>open\<close> fails on a device that is already open; \<^verbatim>\<open>WriteOnly\<close> on a file implies
    \<^verbatim>\<open>Truncate\<close>, \<^verbatim>\<open>Append\<close> keeps the file and writes at its end; both create a missing
    file;
  \<^item> \<^verbatim>\<open>close\<close> resets the position (\<^verbatim>\<open>QIODevice::pos\<close>: for closed devices, where there
    is no current position, 0 is returned);
  \<^item> \<^verbatim>\<open>write\<close> on a device that is not open writes nothing and returns -1;
  \<^item> \<^verbatim>\<open>size\<close> is the size of the file on disk, whether the device is open or not;
  \<^item> \<^verbatim>\<open>remove\<close> closes the device, then removes the file;
  \<^item> \<^verbatim>\<open>rename\<close> fails when the name of the object is empty and when a file of the new
    name exists; otherwise it closes the device and moves the file, which fails when the new
    name is empty, since no file can have the empty name;
  \<^item> the static \<^verbatim>\<open>QFile::remove(fileName)\<close> fails on the empty name, and otherwise
    removes the file of that name;
  \<^item> \<^verbatim>\<open>flush\<close> changes nothing that the model sees (writes reach the disk at once).
\<close>

datatype OpenMode = WriteOnly | Append

record QFile =
  fileName :: path
  isOpen :: bool
  pos :: nat

definition QFile_new :: "path \<Rightarrow> QFile" where
  "QFile_new n = \<lparr>fileName = n, isOpen = False, pos = 0\<rparr>"

definition QFile_open :: "OpenMode \<Rightarrow> QFile \<Rightarrow> disk \<Rightarrow> bool \<times> QFile \<times> disk" where
  "QFile_open mode f d =
     (if isOpen f \<or> fileName f \<in> set (locked d) then (False, f, d)
      else (case mode of
              WriteOnly \<Rightarrow>
                (True, f\<lparr>isOpen := True, pos := 0\<rparr>,
                 d\<lparr>files := (files d)(fileName f \<mapsto> [])\<rparr>)
            | Append \<Rightarrow>
                (True, f\<lparr>isOpen := True, pos := file_size d (fileName f)\<rparr>,
                 d\<lparr>files := (files d)(fileName f \<mapsto>
                      (case files d (fileName f) of None \<Rightarrow> [] | Some c \<Rightarrow> c))\<rparr>)))"

definition QFile_close :: "QFile \<Rightarrow> QFile" where
  "QFile_close f = f\<lparr>isOpen := False, pos := 0\<rparr>"

definition QFile_write :: "bytes \<Rightarrow> QFile \<Rightarrow> disk \<Rightarrow> QFile \<times> disk" where
  "QFile_write bs f d =
     (if \<not> isOpen f then (f, d)
      else (case files d (fileName f) of
              None \<Rightarrow> (f, d)
            | Some c \<Rightarrow>
                (f\<lparr>pos := pos f + length bs\<rparr>,
                 d\<lparr>files := (files d)(fileName f \<mapsto>
                      take (pos f) c @ bs @ drop (pos f + length bs) c)\<rparr>)))"

definition QFile_remove :: "QFile \<Rightarrow> disk \<Rightarrow> bool \<times> QFile \<times> disk" where
  "QFile_remove f d =
     (case remove_path (fileName f) d of (ok, d') \<Rightarrow> (ok, QFile_close f, d'))"

definition QFile_resize :: "nat \<Rightarrow> QFile \<Rightarrow> disk \<Rightarrow> bool \<times> QFile \<times> disk" where
  "QFile_resize sz f d =
     (case files d (fileName f) of
        None \<Rightarrow> (False, f, d)
      | Some c \<Rightarrow>
          if fileName f \<in> set (locked d) then (False, f, d)
          else (True, f\<lparr>pos := (if isOpen f then min (pos f) sz else pos f)\<rparr>,
                d\<lparr>files := (files d)(fileName f \<mapsto>
                     take sz c @ replicate (sz - length c) (CHR 0x00))\<rparr>))"

definition QFile_rename :: "path \<Rightarrow> QFile \<Rightarrow> disk \<Rightarrow> bool \<times> QFile \<times> disk" where
  "QFile_rename newName f d =
     (if fileName f = [] then (False, f, d)
      else if files d newName \<noteq> None then (False, f, d)
      else if newName = [] then (False, QFile_close f, d)
      else (case files d (fileName f) of
              None \<Rightarrow> (False, QFile_close f, d)
            | Some c \<Rightarrow>
                if fileName f \<in> set (locked d) then (False, QFile_close f, d)
                else (True, (QFile_close f)\<lparr>fileName := newName\<rparr>,
                      d\<lparr>files := (files d)(fileName f := None, newName \<mapsto> c)\<rparr>)))"

text \<open>The static \<^verbatim>\<open>QFile::remove(fileName)\<close>, which the source calls on the destination.\<close>

definition QFile_remove_name :: "path \<Rightarrow> disk \<Rightarrow> bool \<times> disk" where
  "QFile_remove_name name d = (if name = [] then (False, d) else remove_path name d)"

subsection \<open>Constants and parameters of the platform\<close>

text \<open>\<^verbatim>\<open>#define MAX_AUTOMATIC_RETRIES 2\<close>\<close>

definition MAX_AUTOMATIC_RETRIES :: nat where
  "MAX_AUTOMATIC_RETRIES = 2"

text \<open>
  The values of \<^verbatim>\<open>QNetworkReply::NetworkError\<close> that the source names or produces;
  \<^verbatim>\<open>NoError\<close> is 0, and the network-layer errors are the codes 1 to 99.
\<close>

definition UnknownNetworkError :: nat where
  "UnknownNetworkError = 99"

definition ContentNotFoundError :: nat where
  "ContentNotFoundError = 203"

definition OperationCanceledError :: nat where
  "OperationCanceledError = 5"

text \<open>
  What the source takes from headers and from the platform: the macro
  \<^verbatim>\<open>DOWNLOADING_FILE_EXTENSION\<close> (declared in a header that is not part of the file),
  the string that \<^verbatim>\<open>UserAgent()\<close> computes by probing the machine, and
  \<^verbatim>\<open>QUrl::resolved\<close>, which resolves a redirection target against the current URL
  (an absolute target resolves to itself).
\<close>

record platform =
  DOWNLOADING_FILE_EXTENSION :: string
  UserAgent :: string
  resolved :: "string \<Rightarrow> string \<Rightarrow> string"

subsection \<open>The session object\<close>

datatype HttpDownloadStatus =
  EHttpDownloadOk | EHttpDownloadFileNotFound | EHttpDownloadFailed | EHttpDownloadFileIsLocked

type_synonym request = "string \<times> (string \<times> string) list"

text \<open>What the session does that its environment sees, in order.\<close>

datatype action =
  Get request
| Finish string HttpDownloadStatus
| Progress string int int

text \<open>
  The members of \<^verbatim>\<open>QtDownload\<close>. \<open>m_reply\<close> holds the request in flight (a null pointer
  is \<open>None\<close>); \<open>m_finish\<close> and \<open>m_progress\<close> say whether the caller's function objects
  are non-empty; \<open>deleteLater\<close> records that the object has scheduled its own deletion.
\<close>

record QtDownload =
  m_currentUrl :: string
  objectName :: string
  m_reply :: "request option"
  m_file :: "QFile option"
  m_httpRequestAborted :: bool
  m_finish :: bool
  m_progress :: bool
  m_retryCounter :: nat
  deleteLater :: bool
  disk :: disk
  trace :: "action list"

text \<open>\<^verbatim>\<open>QtDownload::StartRequest\<close>. A null \<open>m_file\<close> would be dereferenced: \<open>None\<close>.\<close>

definition StartRequest :: "platform \<Rightarrow> QtDownload \<Rightarrow> QtDownload option" where
  "StartRequest P s =
     (case m_file s of
        None \<Rightarrow> None
      | Some f \<Rightarrow>
          let fileSize = file_size (disk s) (fileName f);
              httpRequest =
                (m_currentUrl s,
                 (''User-Agent'', UserAgent P) #
                 (if fileSize > 0
                  then [(''Range'', ''bytes='' @ arg_decimal fileSize @ ''-'')]
                  else []))
          in Some (s\<lparr>m_reply := Some httpRequest, trace := trace s @ [Get httpRequest]\<rparr>))"

text \<open>The constructor \<^verbatim>\<open>QtDownload::QtDownload\<close>, which \<^verbatim>\<open>StartDownload\<close> calls.\<close>

definition QtDownload_new ::
  "platform \<Rightarrow> disk \<Rightarrow> string \<Rightarrow> path \<Rightarrow> bool \<Rightarrow> bool \<Rightarrow> bool \<Rightarrow> QtDownload option" where
  "QtDownload_new P d url fileNm finish progress useResume =
     (let s0 = \<lparr>m_currentUrl = url, objectName = [], m_reply = None, m_file = None,
                m_httpRequestAborted = False, m_finish = finish, m_progress = progress,
                m_retryCounter = 0, deleteLater = False, disk = d, trace = []\<rparr>;
          tmpFileName = fileNm @ DOWNLOADING_FILE_EXTENSION P
      in case QFile_open (if useResume then Append else WriteOnly) (QFile_new tmpFileName) d of
           (ok, f, d') \<Rightarrow>
             if \<not> ok
             then Some (s0\<lparr>trace := (if finish then [Finish url EHttpDownloadFailed] else []),
                           deleteLater := True\<rparr>)
             else StartRequest P
                    (s0\<lparr>m_file := Some f, disk := d', objectName := url, m_currentUrl := url\<rparr>))"

text \<open>
  \<^verbatim>\<open>QtDownload::OnHttpFinished\<close>, with the reply's \<^verbatim>\<open>error()\<close> and its redirection
  attribute as arguments. The pre-increment of \<open>m_retryCounter\<close> happens only when the left
  operand of \<^verbatim>\<open>&&\<close> holds.
\<close>

definition OnHttpFinished ::
  "platform \<Rightarrow> nat \<Rightarrow> string option \<Rightarrow> QtDownload \<Rightarrow> QtDownload option" where
  "OnHttpFinished P netError redirectionTarget s =
     (case (m_file s, m_reply s) of
        (Some f, Some r) \<Rightarrow>
          if m_httpRequestAborted s then
            (case QFile_remove (QFile_close f) (disk s) of
               (ok, f', d') \<Rightarrow> Some (s\<lparr>m_file := None, m_reply := None, disk := d'\<rparr>))
          else
            let f1 = QFile_close f in
            if netError \<noteq> 0 then
              if netError \<le> UnknownNetworkError \<and> Suc (m_retryCounter s) \<le> MAX_AUTOMATIC_RETRIES
              then StartRequest P (s\<lparr>m_file := Some f1, m_retryCounter := Suc (m_retryCounter s)\<rparr>)
              else
                let counter = (if netError \<le> UnknownNetworkError
                               then Suc (m_retryCounter s) else m_retryCounter s);
                    d' = (if pos f1 = 0 then snd (snd (QFile_remove f1 (disk s))) else disk s)
                in Some (s\<lparr>m_retryCounter := counter, m_file := None, m_reply := None,
                            disk := d',
                            trace := trace s @
                              (if m_finish s
                               then [Finish (objectName s)
                                      (if netError = ContentNotFoundError
                                       then EHttpDownloadFileNotFound else EHttpDownloadFailed)]
                               else []),
                            deleteLater := True\<rparr>)
            else
              (case redirectionTarget of
                 Some target \<Rightarrow>
                   (case QFile_open WriteOnly f1 (disk s) of
                      (ok2, f2, d2) \<Rightarrow>
                        (case QFile_resize 0 f2 d2 of
                           (ok3, f3, d3) \<Rightarrow>
                             StartRequest P
                               (s\<lparr>m_currentUrl := resolved P (m_currentUrl s) target,
                                   m_file := Some f3, disk := d3\<rparr>)))
               | None \<Rightarrow>
                   let originalFileName =
                         left (lastIndexOf (fileName f1) (DOWNLOADING_FILE_EXTENSION P))
                           (fileName f1)
                   in (case QFile_remove_name originalFileName (disk s) of
                         (ok1, d1) \<Rightarrow>
                           (case QFile_rename originalFileName f1 d1 of
                              (ok2, f2, d2) \<Rightarrow>
                                let resultForGui = ok2;
                                    d3 = (if \<not> ok2 then snd (snd (QFile_remove f2 d2)) else d2)
                                in Some (s\<lparr>m_file := None, m_reply := None, disk := d3,
                                            trace := trace s @
                                              (if m_finish s
                                               then [Finish (objectName s)
                                                      (if resultForGui then EHttpDownloadOk
                                                       else EHttpDownloadFileIsLocked)]
                                               else []),
                                            deleteLater := True\<rparr>))))
      | _ \<Rightarrow> None)"

text \<open>\<^verbatim>\<open>QtDownload::OnHttpReadyRead\<close>, with the bytes that \<^verbatim>\<open>readAll()\<close> returns.\<close>

definition OnHttpReadyRead :: "bytes \<Rightarrow> QtDownload \<Rightarrow> QtDownload" where
  "OnHttpReadyRead chunk s =
     (case (m_file s, m_reply s) of
        (Some f, Some r) \<Rightarrow>
          (case QFile_write chunk f (disk s) of
             (f', d') \<Rightarrow> s\<lparr>m_file := Some f', disk := d'\<rparr>)
      | _ \<Rightarrow> s)"

text \<open>\<^verbatim>\<open>QtDownload::OnUpdateDataReadProgress\<close>\<close>

definition OnUpdateDataReadProgress :: "int \<Rightarrow> int \<Rightarrow> QtDownload \<Rightarrow> QtDownload" where
  "OnUpdateDataReadProgress bytesRead totalBytes s =
     (if \<not> m_httpRequestAborted s \<and> m_progress s
      then s\<lparr>trace := trace s @ [Progress (objectName s) bytesRead totalBytes]\<rparr>
      else s)"

text \<open>
  The destructor \<^verbatim>\<open>QtDownload::~QtDownload\<close>: with a reply in flight it sets the flag and
  aborts the reply, which calls \<^verbatim>\<open>OnHttpFinished\<close> before \<^verbatim>\<open>abort()\<close> returns.
\<close>

definition QtDownload_delete :: "platform \<Rightarrow> QtDownload \<Rightarrow> QtDownload option" where
  "QtDownload_delete P s =
     (case m_reply s of
        None \<Rightarrow> Some s
      | Some r \<Rightarrow> OnHttpFinished P OperationCanceledError None (s\<lparr>m_httpRequestAborted := True\<rparr>))"

subsection \<open>Sessions\<close>

text \<open>
  The signals are those of the reply that \<open>m_reply\<close> points to, connected in
  \<^verbatim>\<open>StartRequest\<close>; without a reply there is nothing that could emit one. \<open>Destroy\<close> is the
  owner deleting the object.
\<close>

datatype event =
  ReadyRead bytes
| DownloadProgress int int
| Finished nat "string option"
| Destroy

definition dispatch :: "platform \<Rightarrow> event \<Rightarrow> QtDownload \<Rightarrow> QtDownload option" where
  "dispatch P e s =
     (case m_reply s of
        None \<Rightarrow> Some s
      | Some r \<Rightarrow>
          (case e of
             ReadyRead chunk \<Rightarrow> Some (OnHttpReadyRead chunk s)
           | DownloadProgress bytesRead totalBytes \<Rightarrow>
               Some (OnUpdateDataReadProgress bytesRead totalBytes s)
           | Finished netError redirectionTarget \<Rightarrow> OnHttpFinished P netError redirectionTarget s
           | Destroy \<Rightarrow> QtDownload_delete P s))"

fun run :: "platform \<Rightarrow> event list \<Rightarrow> QtDownload \<Rightarrow> QtDownload option" where
  "run P [] s = Some s"
| "run P (e # es) s = (case dispatch P e s of None \<Rightarrow> None | Some s' \<Rightarrow> run P es s')"

text \<open>\<^verbatim>\<open>QtDownload::StartDownload\<close> followed by the signals \<open>es\<close>.\<close>

definition StartDownload ::
  "platform \<Rightarrow> disk \<Rightarrow> string \<Rightarrow> path \<Rightarrow> bool \<Rightarrow> bool \<Rightarrow> bool \<Rightarrow> event list \<Rightarrow> QtDownload option" where
  "StartDownload P d url fileNm finish progress useResume es =
     (case QtDownload_new P d url fileNm finish progress useResume of
        None \<Rightarrow> None
      | Some s \<Rightarrow> run P es s)"

subsection \<open>Auxiliary definitions\<close>

text \<open>
  What holds of a session between two signals. \<open>tmp\<close> is the name of the temporary file
  and \<open>url\<close> the URL the session was started with. With a reply in flight the object
  has not been aborted, has retried at most \<open>MAX_AUTOMATIC_RETRIES\<close> times, and holds a
  \<open>QFile\<close> on \<open>tmp\<close>, which exists and is not locked.
\<close>

definition session_inv :: "path \<Rightarrow> string \<Rightarrow> QtDownload \<Rightarrow> bool" where
  "session_inv tmp url s =
     (case m_reply s of
        None \<Rightarrow> m_retryCounter s \<le> Suc MAX_AUTOMATIC_RETRIES
      | Some r \<Rightarrow>
          \<not> m_httpRequestAborted s \<and> m_retryCounter s \<le> MAX_AUTOMATIC_RETRIES \<and>
          objectName s = url \<and>
          (case m_file s of
             None \<Rightarrow> False
           | Some f \<Rightarrow> fileName f = tmp \<and> tmp \<notin> set (locked (disk s)) \<and>
                       files (disk s) tmp \<noteq> None))"

text \<open>
  A terminal notification of a network-layer error (codes 1 to \<open>UnknownNetworkError\<close>)
  that reaches a session which has a reply in flight and has not been aborted.
\<close>

definition transient_failure :: "event \<Rightarrow> QtDownload \<Rightarrow> bool" where
  "transient_failure e s =
     (case e of
        Finished netError target \<Rightarrow>
          netError \<noteq> 0 \<and> netError \<le> UnknownNetworkError \<and>
          m_reply s \<noteq> None \<and> \<not> m_httpRequestAborted s
      | _ \<Rightarrow> False)"

text \<open>
  Observers of the trace: the invocations of the caller's \<open>onFinish\<close>, and the requests
  handed to the network access manager, in order.
\<close>

fun is_Finish :: "action \<Rightarrow> bool" where
  "is_Finish (Finish u st) = True"
| "is_Finish a = False"

fun requests :: "action list \<Rightarrow> request list" where
  "requests [] = []"
| "requests (Get rq # tr) = rq # requests tr"
| "requests (Finish u st # tr) = requests tr"
| "requests (Progress u a b # tr) = requests tr"

text \<open>
  With the caller's \<open>onFinish\<close> present: no invocation while a reply is in flight or
  after an abort, and exactly one, for the session's URL, once the session has ended
  otherwise.
\<close>

definition finish_inv :: "string \<Rightarrow> QtDownload \<Rightarrow> bool" where
  "finish_inv url s =
     (m_finish s \<and>
      (if m_httpRequestAborted s \<or> m_reply s \<noteq> None
       then filter is_Finish (trace s) = []
       else \<exists>st. filter is_Finish (trace s) = [Finish url st]))"

text \<open>
  The request the specification expects for URL \<open>u\<close> when the temporary file has size
  \<open>S\<close>: the client header and, iff \<open>S > 0\<close>, a range header \<open>bytes=S-\<close>.
\<close>

definition expected_request :: "platform \<Rightarrow> string \<Rightarrow> nat \<Rightarrow> request" where
  "expected_request P u S =
     (u, (''User-Agent'', UserAgent P) #
         (if 0 < S then [(''Range'', ''bytes='' @ arg_decimal S @ ''-'')] else []))"

text \<open>
  Concrete platforms, disks and sessions, for evaluating the model: an empty disk, a disk
  with a file at the destination (free, or locked), a disk with a partial download, and a
  disk on which the temporary file cannot be opened.
\<close>

definition example_platform :: platform where
  "example_platform =
     \<lparr>DOWNLOADING_FILE_EXTENSION = ''.downloading'', UserAgent = ''MWM'',
      resolved = (\<lambda>current target. target)\<rparr>"

definition empty_disk :: disk where
  "empty_disk = \<lparr>files = Map.empty, locked = []\<rparr>"

definition free_disk :: disk where
  "free_disk = \<lparr>files = [''f'' \<mapsto> ''old''], locked = []\<rparr>"

definition locked_disk :: disk where
  "locked_disk = \<lparr>files = [''f'' \<mapsto> ''old''], locked = [''f'']\<rparr>"

definition partial_disk :: disk where
  "partial_disk = \<lparr>files = [''f.downloading'' \<mapsto> ''0123456789ab''], locked = []\<rparr>"

definition readonly_disk :: disk where
  "readonly_disk = \<lparr>files = Map.empty, locked = [''f.downloading'']\<rparr>"

definition example_session :: "event list \<Rightarrow> QtDownload" where
  "example_session es =
     the (StartDownload example_platform empty_disk ''u'' ''f'' True True False es)"

lemmas eval_defs =
  StartDownload_def QtDownload_new_def QFile_open_def QFile_new_def StartRequest_def
  file_size_def dispatch_def OnHttpReadyRead_def OnUpdateDataReadProgress_def QFile_write_def
  OnHttpFinished_def QtDownload_delete_def QFile_close_def QFile_remove_def QFile_resize_def
  QFile_rename_def QFile_remove_name_def remove_path_def left_def lastIndexOf_def
  arg_decimal.simps
  UnknownNetworkError_def ContentNotFoundError_def OperationCanceledError_def
  MAX_AUTOMATIC_RETRIES_def example_platform_def empty_disk_def Let_def

section \<open>Properties\<close>

subsection \<open>The name of the destination file\<close>

text \<open>
  \<open>originalFileName\<close> in \<^verbatim>\<open>OnHttpFinished\<close> is the name the caller gave: the last
  occurrence of the extension in \<open>p @ e\<close> is the one at the end.
\<close>

lemma lastIndexOf_from_suffix:
  "e \<noteq> [] \<Longrightarrow> length p \<le> i \<Longrightarrow> lastIndexOf_from (p @ e) e i = int (length p)"
proof (induction i)
  case 0
  then show ?case by simp
next
  case (Suc i)
  show ?case
  proof (cases "Suc i = length p")
    case True
    then have "length p = Suc i" by simp
    then show ?thesis by simp
  next
    case False
    with Suc.prems have le: "length p \<le> i" by simp
    have "length (take (length e) (drop (Suc i) (p @ e))) < length e"
      using Suc.prems le by (cases e) auto
    then have "take (length e) (drop (Suc i) (p @ e)) \<noteq> e"
      by (metis less_irrefl)
    then show ?thesis using Suc.IH [OF Suc.prems(1) le] by simp
  qed
qed

lemma originalFileName_suffix:
  "e \<noteq> [] \<Longrightarrow> left (lastIndexOf (p @ e) e) (p @ e) = p"
  by (simp add: lastIndexOf_def lastIndexOf_from_suffix left_def)

subsection \<open>The branches of OnHttpFinished\<close>

lemma requests_append: "requests (xs @ ys) = requests xs @ requests ys"
  by (induction xs rule: requests.induct) auto

lemma StartRequest_file:
  "m_file s = Some f \<Longrightarrow>
   StartRequest P s =
     Some (s\<lparr>m_reply := Some (m_currentUrl s,
                (''User-Agent'', UserAgent P) #
                (if 0 < file_size (disk s) (fileName f)
                 then [(''Range'', ''bytes='' @ arg_decimal (file_size (disk s) (fileName f)) @ ''-'')]
                 else [])),
             trace := trace s @ [Get (m_currentUrl s,
                (''User-Agent'', UserAgent P) #
                (if 0 < file_size (disk s) (fileName f)
                 then [(''Range'', ''bytes='' @ arg_decimal (file_size (disk s) (fileName f)) @ ''-'')]
                 else []))]\<rparr>)"
  by (simp add: StartRequest_def Let_def)

lemma OnHttpFinished_aborted:
  "m_file s = Some f \<Longrightarrow> m_reply s = Some r \<Longrightarrow> m_httpRequestAborted s \<Longrightarrow>
   OnHttpFinished P netError target s =
     Some (s\<lparr>m_file := None, m_reply := None,
             disk := snd (remove_path (fileName f) (disk s))\<rparr>)"
  by (simp add: OnHttpFinished_def QFile_remove_def QFile_close_def split: prod.splits)

lemma OnHttpFinished_retry:
  "m_file s = Some f \<Longrightarrow> m_reply s = Some r \<Longrightarrow> \<not> m_httpRequestAborted s \<Longrightarrow>
   netError \<noteq> 0 \<Longrightarrow> netError \<le> UnknownNetworkError \<Longrightarrow>
   Suc (m_retryCounter s) \<le> MAX_AUTOMATIC_RETRIES \<Longrightarrow>
   OnHttpFinished P netError target s =
     StartRequest P (s\<lparr>m_file := Some (QFile_close f), m_retryCounter := Suc (m_retryCounter s)\<rparr>)"
  by (simp add: OnHttpFinished_def)

lemma OnHttpFinished_failed:
  "m_file s = Some f \<Longrightarrow> m_reply s = Some r \<Longrightarrow> \<not> m_httpRequestAborted s \<Longrightarrow>
   netError \<noteq> 0 \<Longrightarrow>
   \<not> (netError \<le> UnknownNetworkError \<and> Suc (m_retryCounter s) \<le> MAX_AUTOMATIC_RETRIES) \<Longrightarrow>
   OnHttpFinished P netError target s =
     Some (s\<lparr>m_retryCounter := (if netError \<le> UnknownNetworkError
                                  then Suc (m_retryCounter s) else m_retryCounter s),
             m_file := None, m_reply := None,
             disk := snd (remove_path (fileName f) (disk s)),
             trace := trace s @
               (if m_finish s
                then [Finish (objectName s)
                       (if netError = ContentNotFoundError
                        then EHttpDownloadFileNotFound else EHttpDownloadFailed)]
                else []),
             deleteLater := True\<rparr>)"
  by (simp add: OnHttpFinished_def QFile_remove_def QFile_close_def split: prod.splits)

lemma OnHttpFinished_redirect:
  "m_file s = Some f \<Longrightarrow> m_reply s = Some r \<Longrightarrow> \<not> m_httpRequestAborted s \<Longrightarrow>
   fileName f \<notin> set (locked (disk s)) \<Longrightarrow>
   OnHttpFinished P 0 (Some target) s =
     StartRequest P
       (s\<lparr>m_currentUrl := resolved P (m_currentUrl s) target,
           m_file := Some (f\<lparr>isOpen := True, pos := 0\<rparr>),
           disk := (disk s)\<lparr>files := (files (disk s))(fileName f \<mapsto> [])\<rparr>\<rparr>)"
  by (simp add: OnHttpFinished_def QFile_open_def QFile_resize_def QFile_close_def)

lemma fileName_QFile_close: "fileName (QFile_close f) = fileName f"
  by (simp add: QFile_close_def)

lemma finalize_disk:
  assumes tmp: "fileName f = tmp" "tmp \<noteq> []" "tmp \<noteq> fn"
    and c: "files d tmp = Some c" and nl: "tmp \<notin> set (locked d)"
  shows "\<exists>ok1 d1 f2 d2.
     QFile_remove_name fn d = (ok1, d1) \<and>
     QFile_rename fn (QFile_close f) d1 =
       (fn \<noteq> [] \<and> \<not> (files d fn \<noteq> None \<and> fn \<in> set (locked d)), f2, d2) \<and>
     (if fn \<noteq> [] \<and> \<not> (files d fn \<noteq> None \<and> fn \<in> set (locked d)) then d2
      else snd (snd (QFile_remove f2 d2))) =
       d\<lparr>files :=
           (if fn = [] \<or> files d fn \<noteq> None \<and> fn \<in> set (locked d)
            then (files d)(tmp := None)
            else (files d)(tmp := None, fn \<mapsto> c))\<rparr>"
proof -
  have name: "fileName (QFile_close f) = tmp" "fileName (QFile_close f) \<noteq> []"
    using tmp by (simp_all add: QFile_close_def)
  consider (empty) "fn = []"
    | (absent) "fn \<noteq> []" "files d fn = None"
    | (stuck) y where "fn \<noteq> []" "files d fn = Some y" "fn \<in> set (locked d)"
    | (free) y where "fn \<noteq> []" "files d fn = Some y" "fn \<notin> set (locked d)"
    by (cases "files d fn") auto
  then show ?thesis
  proof cases
    case empty
    have rm: "QFile_remove_name fn d = (False, d)"
      using empty by (simp add: QFile_remove_name_def)
    have rn: "fst (QFile_rename fn (QFile_close f) d) = False \<and>
       fileName (fst (snd (QFile_rename fn (QFile_close f) d))) = tmp \<and>
       snd (snd (QFile_rename fn (QFile_close f) d)) = d"
      using empty name by (simp add: QFile_rename_def QFile_close_def)
    have del: "snd (snd (QFile_remove (fst (snd (QFile_rename fn (QFile_close f) d))) d)) =
       d\<lparr>files := (files d)(tmp := None)\<rparr>"
      using rn c nl by (simp add: QFile_remove_def remove_path_def split: prod.splits)
    show ?thesis
      apply (rule exI [of _ False], rule exI [of _ d])
      apply (rule exI [of _ "fst (snd (QFile_rename fn (QFile_close f) d))"])
      apply (rule exI [of _ d])
      using rm rn del empty by (simp add: prod_eq_iff)
  next
    case absent
    have rm: "QFile_remove_name fn d = (False, d)"
      using absent by (simp add: QFile_remove_name_def remove_path_def)
    have rn: "QFile_rename fn (QFile_close f) d =
       (True, (QFile_close (QFile_close f))\<lparr>fileName := fn\<rparr>,
        d\<lparr>files := (files d)(tmp := None, fn \<mapsto> c)\<rparr>)"
      using absent name c nl by (simp add: QFile_rename_def)
    show ?thesis
      apply (rule exI [of _ False], rule exI [of _ d])
      apply (rule exI [of _ "(QFile_close (QFile_close f))\<lparr>fileName := fn\<rparr>"])
      apply (rule exI [of _ "d\<lparr>files := (files d)(tmp := None, fn \<mapsto> c)\<rparr>"])
      using rm rn absent by simp
  next
    case stuck
    have rm: "QFile_remove_name fn d = (False, d)"
      using stuck by (simp add: QFile_remove_name_def remove_path_def)
    have rn: "QFile_rename fn (QFile_close f) d = (False, QFile_close f, d)"
      using stuck name by (simp add: QFile_rename_def)
    have del: "snd (snd (QFile_remove (QFile_close f) d)) = d\<lparr>files := (files d)(tmp := None)\<rparr>"
      using name c nl by (simp add: QFile_remove_def remove_path_def)
    show ?thesis
      apply (rule exI [of _ False], rule exI [of _ d])
      apply (rule exI [of _ "QFile_close f"])
      apply (rule exI [of _ d])
      using rm rn del stuck by simp
  next
    case free
    let ?d1 = "d\<lparr>files := (files d)(fn := None)\<rparr>"
    have rm: "QFile_remove_name fn d = (True, ?d1)"
      using free by (simp add: QFile_remove_name_def remove_path_def)
    have rn: "QFile_rename fn (QFile_close f) ?d1 =
       (True, (QFile_close (QFile_close f))\<lparr>fileName := fn\<rparr>,
        ?d1\<lparr>files := (files ?d1)(tmp := None, fn \<mapsto> c)\<rparr>)"
      using free name c nl tmp(3) by (simp add: QFile_rename_def)
    have eq: "?d1\<lparr>files := (files ?d1)(tmp := None, fn \<mapsto> c)\<rparr> =
       d\<lparr>files := (files d)(tmp := None, fn \<mapsto> c)\<rparr>"
      using tmp(3) by (simp add: fun_upd_twist)
    show ?thesis
      apply (rule exI [of _ True], rule exI [of _ ?d1])
      apply (rule exI [of _ "(QFile_close (QFile_close f))\<lparr>fileName := fn\<rparr>"])
      apply (rule exI [of _ "d\<lparr>files := (files d)(tmp := None, fn \<mapsto> c)\<rparr>"])
      using rm rn eq free by simp
  qed
qed

lemma OnHttpFinished_success:
  assumes mf: "m_file s = Some f" and r: "m_reply s = Some r" and na: "\<not> m_httpRequestAborted s"
    and nm: "fileName f = fn @ DOWNLOADING_FILE_EXTENSION P"
    and ext: "DOWNLOADING_FILE_EXTENSION P \<noteq> []"
    and nl: "fileName f \<notin> set (locked (disk s))" and c: "files (disk s) (fileName f) = Some c"
  shows "OnHttpFinished P 0 None s =
     Some (s\<lparr>m_file := None, m_reply := None,
             disk := (disk s)\<lparr>files :=
                (if fn = [] \<or> files (disk s) fn \<noteq> None \<and> fn \<in> set (locked (disk s))
                 then (files (disk s))(fileName f := None)
                 else (files (disk s))(fileName f := None, fn \<mapsto> c))\<rparr>,
             trace := trace s @
               (if m_finish s
                then [Finish (objectName s)
                       (if fn = [] \<or> files (disk s) fn \<noteq> None \<and> fn \<in> set (locked (disk s))
                        then EHttpDownloadFileIsLocked else EHttpDownloadOk)]
                else []),
             deleteLater := True\<rparr>)"
proof -
  from nm ext have ne: "fileName f \<noteq> []" "fileName f \<noteq> fn" by simp_all
  from finalize_disk [OF refl ne c nl] obtain ok1 d1 f2 d2 where
    rm: "QFile_remove_name fn (disk s) = (ok1, d1)"
    and rn: "QFile_rename fn (QFile_close f) d1 =
       (fn \<noteq> [] \<and> \<not> (files (disk s) fn \<noteq> None \<and> fn \<in> set (locked (disk s))), f2, d2)"
    and d3: "(if fn \<noteq> [] \<and> \<not> (files (disk s) fn \<noteq> None \<and> fn \<in> set (locked (disk s))) then d2
      else snd (snd (QFile_remove f2 d2))) =
       (disk s)\<lparr>files :=
           (if fn = [] \<or> files (disk s) fn \<noteq> None \<and> fn \<in> set (locked (disk s))
            then (files (disk s))(fileName f := None)
            else (files (disk s))(fileName f := None, fn \<mapsto> c))\<rparr>"
    by blast
  define fails where
    "fails \<longleftrightarrow> fn = [] \<or> files (disk s) fn \<noteq> None \<and> fn \<in> set (locked (disk s))"
  have rn': "QFile_rename fn (QFile_close f) d1 = (\<not> fails, f2, d2)"
    using rn unfolding fails_def by simp
  have d3': "(if fails then snd (snd (QFile_remove f2 d2)) else d2) =
       (disk s)\<lparr>files :=
           (if fails then (files (disk s))(fileName f := None)
            else (files (disk s))(fileName f := None, fn \<mapsto> c))\<rparr>"
    using d3 unfolding fails_def by (cases "fn = []") auto
  have orig: "left (lastIndexOf (fileName (QFile_close f)) (DOWNLOADING_FILE_EXTENSION P))
       (fileName (QFile_close f)) = fn"
    using nm ext by (simp add: fileName_QFile_close originalFileName_suffix)
  have "OnHttpFinished P 0 None s =
     Some (s\<lparr>m_file := None, m_reply := None,
             disk := (disk s)\<lparr>files :=
                (if fails then (files (disk s))(fileName f := None)
                 else (files (disk s))(fileName f := None, fn \<mapsto> c))\<rparr>,
             trace := trace s @
               (if m_finish s
                then [Finish (objectName s)
                       (if fails then EHttpDownloadFileIsLocked else EHttpDownloadOk)]
                else []),
             deleteLater := True\<rparr>)"
    using mf r na d3'
    by (cases fails) (simp_all add: OnHttpFinished_def Let_def orig rm rn')
  then show ?thesis unfolding fails_def .
qed

lemma OnHttpFinished_counter:
  "OnHttpFinished P netError target s = Some s' \<Longrightarrow>
   m_retryCounter s' =
     (if netError \<noteq> 0 \<and> netError \<le> UnknownNetworkError \<and> \<not> m_httpRequestAborted s
      then Suc (m_retryCounter s) else m_retryCounter s)"
  by (auto simp: OnHttpFinished_def StartRequest_def Let_def
        split: option.splits prod.splits if_splits)

lemma OnHttpFinished_trace:
  assumes "m_file s = Some f" and "m_reply s = Some r" and "\<not> m_httpRequestAborted s"
    and "OnHttpFinished P netError target s = Some s'"
  shows "m_finish s' = m_finish s \<and> \<not> m_httpRequestAborted s' \<and>
     ((\<exists>rq. m_reply s' = Some rq \<and> trace s' = trace s @ [Get rq]) \<or>
      (\<exists>st. m_reply s' = None \<and>
            trace s' = trace s @ (if m_finish s then [Finish (objectName s) st] else [])))"
  using assms
  by (auto simp: OnHttpFinished_def StartRequest_def Let_def
        split: option.splits prod.splits if_splits)

lemma OnHttpFinished_terminal_requests:
  "OnHttpFinished P netError target s = Some s' \<Longrightarrow> m_reply s' = None \<Longrightarrow>
   requests (trace s') = requests (trace s)"
  by (auto simp: OnHttpFinished_def StartRequest_def Let_def requests_append
        split: option.splits prod.splits if_splits)

subsection \<open>The session invariant\<close>

text \<open>
  Every slot keeps the invariant and returns: no null pointer is dereferenced in a session
  that \<^verbatim>\<open>StartDownload\<close> began.
\<close>

lemma session_inv_flight:
  "session_inv tmp url s \<Longrightarrow> m_reply s = Some r \<Longrightarrow>
   \<exists>f. m_file s = Some f \<and> fileName f = tmp \<and> tmp \<notin> set (locked (disk s)) \<and>
       files (disk s) tmp \<noteq> None \<and> \<not> m_httpRequestAborted s \<and>
       m_retryCounter s \<le> MAX_AUTOMATIC_RETRIES \<and> objectName s = url"
  by (auto simp: session_inv_def split: option.splits)

lemma QtDownload_new_inv:
  "\<exists>s0. QtDownload_new P d url fn fin prog res = Some s0 \<and>
        session_inv (fn @ DOWNLOADING_FILE_EXTENSION P) url s0"
  by (auto simp: QtDownload_new_def QFile_open_def QFile_new_def StartRequest_file
        session_inv_def MAX_AUTOMATIC_RETRIES_def Let_def split: OpenMode.splits)

lemma OnHttpReadyRead_inv:
  "session_inv tmp url s \<Longrightarrow> session_inv tmp url (OnHttpReadyRead chunk s)"
  by (auto simp: session_inv_def OnHttpReadyRead_def QFile_write_def
        split: option.splits prod.splits if_splits)

lemma OnUpdateDataReadProgress_inv:
  "session_inv tmp url s \<Longrightarrow> session_inv tmp url (OnUpdateDataReadProgress a b s)"
  by (auto simp: session_inv_def OnUpdateDataReadProgress_def split: option.splits)

lemma OnHttpFinished_inv:
  assumes inv: "session_inv tmp url s" and r: "m_reply s = Some r"
  shows "\<exists>s'. OnHttpFinished P netError target s = Some s' \<and> session_inv tmp url s'"
proof -
  from session_inv_flight [OF inv r] obtain f where
    f: "m_file s = Some f" "fileName f = tmp" "tmp \<notin> set (locked (disk s))"
       "files (disk s) tmp \<noteq> None" "\<not> m_httpRequestAborted s"
       "m_retryCounter s \<le> MAX_AUTOMATIC_RETRIES" "objectName s = url"
    by blast
  show ?thesis
  proof (cases "netError = 0")
    case False
    show ?thesis
    proof (cases "netError \<le> UnknownNetworkError \<and> Suc (m_retryCounter s) \<le> MAX_AUTOMATIC_RETRIES")
      case True
      with False f r show ?thesis
        by (simp add: OnHttpFinished_retry StartRequest_file session_inv_def QFile_close_def)
    next
      case no: False
      from f r False no show ?thesis
        by (simp add: OnHttpFinished_failed session_inv_def)
    qed
  next
    case True
    show ?thesis
    proof (cases target)
      case (Some t)
      with True f r show ?thesis
        by (simp add: OnHttpFinished_redirect StartRequest_file session_inv_def)
    next
      case None
      with True f r show ?thesis
        by (simp add: OnHttpFinished_def session_inv_def Let_def split: prod.splits)
    qed
  qed
qed

lemma QtDownload_delete_inv:
  assumes inv: "session_inv tmp url s" and r: "m_reply s = Some r"
  shows "\<exists>s'. QtDownload_delete P s = Some s' \<and> session_inv tmp url s'"
proof -
  from session_inv_flight [OF inv r] obtain f where "m_file s = Some f"
    "m_retryCounter s \<le> MAX_AUTOMATIC_RETRIES" by blast
  with r show ?thesis
    by (simp add: QtDownload_delete_def OnHttpFinished_aborted session_inv_def)
qed

lemma dispatch_inv:
  assumes inv: "session_inv tmp url s"
  shows "\<exists>s'. dispatch P e s = Some s' \<and> session_inv tmp url s'"
proof (cases "m_reply s")
  case None
  with inv show ?thesis by (simp add: dispatch_def)
next
  case (Some r)
  show ?thesis
  proof (cases e)
    case (ReadyRead chunk)
    with Some inv show ?thesis by (simp add: dispatch_def OnHttpReadyRead_inv)
  next
    case (DownloadProgress a b)
    with Some inv show ?thesis by (simp add: dispatch_def OnUpdateDataReadProgress_inv)
  next
    case (Finished netError target)
    with Some OnHttpFinished_inv [OF inv Some] show ?thesis by (simp add: dispatch_def)
  next
    case Destroy
    with Some QtDownload_delete_inv [OF inv Some] show ?thesis by (simp add: dispatch_def)
  qed
qed

lemma run_inv:
  "session_inv tmp url s \<Longrightarrow> \<exists>s'. run P es s = Some s' \<and> session_inv tmp url s'"
proof (induction es arbitrary: s)
  case Nil
  then show ?case by simp
next
  case (Cons e es)
  from dispatch_inv [OF Cons.prems] obtain s1 where
    s1: "dispatch P e s = Some s1" "session_inv tmp url s1" by blast
  from Cons.IH [OF s1(2)] s1(1) show ?case by simp
qed

lemma StartDownload_inv:
  "\<exists>s. StartDownload P d url fn fin prog res es = Some s \<and>
       session_inv (fn @ DOWNLOADING_FILE_EXTENSION P) url s"
proof -
  obtain s0 where s0: "QtDownload_new P d url fn fin prog res = Some s0"
    "session_inv (fn @ DOWNLOADING_FILE_EXTENSION P) url s0"
    using QtDownload_new_inv by blast
  from run_inv [OF s0(2)] s0(1) show ?thesis by (simp add: StartDownload_def)
qed

lemma StartDownload_flight:
  assumes "StartDownload P d url fn fin prog res es = Some s" and "m_reply s = Some r"
  shows "\<exists>f. m_file s = Some f \<and> fileName f = fn @ DOWNLOADING_FILE_EXTENSION P \<and>
       fn @ DOWNLOADING_FILE_EXTENSION P \<notin> set (locked (disk s)) \<and>
       files (disk s) (fn @ DOWNLOADING_FILE_EXTENSION P) \<noteq> None \<and>
       \<not> m_httpRequestAborted s \<and>
       m_retryCounter s \<le> MAX_AUTOMATIC_RETRIES \<and> objectName s = url"
proof -
  from StartDownload_inv [of P d url fn fin prog res es] assms(1)
  have "session_inv (fn @ DOWNLOADING_FILE_EXTENSION P) url s" by auto
  from session_inv_flight [OF this assms(2)] show ?thesis .
qed

lemma run_append:
  "run P (es @ es') s = (case run P es s of None \<Rightarrow> None | Some s1 \<Rightarrow> run P es' s1)"
  by (induction es arbitrary: s) (auto split: option.splits)

lemma run_terminated: "m_reply s = None \<Longrightarrow> run P es s = Some s"
  by (induction es) (auto simp: dispatch_def)

lemma StartDownload_append:
  "StartDownload P d url fn fin prog res es = Some s \<Longrightarrow>
   StartDownload P d url fn fin prog res (es @ es') = run P es' s"
  by (auto simp: StartDownload_def run_append split: option.splits)

subsection \<open>Retries\<close>

text \<open>
  C1, at a concrete session. The resource is \<open>abcd\<close>. The first attempt streams \<open>ab\<close>
  and ends in a network-layer error (code 1); the retry asks for the rest with
  \<open>Range: bytes=2-\<close>, streams \<open>cd\<close> and ends cleanly. \<^verbatim>\<open>OnHttpFinished\<close> has closed
  the file before it retried, and the retry branch does not open it again (the redirect
  branch does), so the write of \<open>cd\<close> reaches a closed device: the callback reports
  \<open>EHttpDownloadOk\<close> and the destination holds \<open>ab\<close> only.
\<close>

theorem C1_retry_drops_later_chunks:
  "map_option (\<lambda>s. (trace s, files (disk s) ''f'', files (disk s) ''f.downloading''))
     (StartDownload example_platform empty_disk ''u'' ''f'' True True False
        [ReadyRead ''ab'', Finished 1 None, ReadyRead ''cd'', Finished 0 None]) =
   Some ([Get (''u'', [(''User-Agent'', ''MWM'')]),
          Get (''u'', [(''User-Agent'', ''MWM''), (''Range'', ''bytes=2-'')]),
          Finish ''u'' EHttpDownloadOk],
         Some ''ab'', None)"
  by (simp add: eval_defs)

text \<open>
  C2, at a concrete session. The attempt streams \<open>ab\<close> and ends with
  \<open>ContentNotFoundError\<close> (203). The failure branch removes the temporary file when
  \<^verbatim>\<open>m_file->pos() == 0\<close>, and reads the position after \<^verbatim>\<open>m_file->close()\<close>, where it
  is always 0: the two bytes already written are removed with the file.
\<close>

theorem C2_failure_removes_partial_file:
  "map_option (\<lambda>s. (trace s, files (disk s) ''f.downloading''))
     (StartDownload example_platform empty_disk ''u'' ''f'' True True False
        [ReadyRead ''ab'', Finished 203 None]) =
   Some ([Get (''u'', [(''User-Agent'', ''MWM'')]),
          Finish ''u'' EHttpDownloadFileNotFound],
         None)"
  by (simp add: eval_defs)

lemma dispatch_counter:
  "dispatch P e s = Some s' \<Longrightarrow>
   m_retryCounter s' = (if transient_failure e s then Suc (m_retryCounter s) else m_retryCounter s)"
proof (cases "m_reply s")
  case None
  assume "dispatch P e s = Some s'"
  with None show ?thesis by (cases e) (auto simp: dispatch_def transient_failure_def)
next
  case (Some r)
  assume d: "dispatch P e s = Some s'"
  show ?thesis
  proof (cases e)
    case (ReadyRead chunk)
    with d Some show ?thesis
      by (auto simp: dispatch_def transient_failure_def OnHttpReadyRead_def
            split: option.splits prod.splits)
  next
    case (DownloadProgress a b)
    with d Some show ?thesis
      by (auto simp: dispatch_def transient_failure_def OnUpdateDataReadProgress_def)
  next
    case (Finished netError target)
    with d Some OnHttpFinished_counter [of P netError target s s'] show ?thesis
      by (simp add: dispatch_def transient_failure_def)
  next
    case Destroy
    with d Some
    have "OnHttpFinished P OperationCanceledError None (s\<lparr>m_httpRequestAborted := True\<rparr>) = Some s'"
      by (simp add: dispatch_def QtDownload_delete_def)
    from OnHttpFinished_counter [OF this] Destroy show ?thesis
      by (simp add: transient_failure_def)
  qed
qed

text \<open>
  C3, as the source has it. \<open>m_retryCounter\<close> is 0 after construction. A signal changes
  it only when it is the terminal notification of a network-layer error reaching a session
  that is in flight and not aborted, and then by exactly one, also when that error is the
  one that exhausts the budget and no retry follows; redirects, chunks, progress, clean
  success, other errors and destruction leave it alone, and nothing resets it. While a
  request is in flight it is at most \<open>MAX_AUTOMATIC_RETRIES\<close>; in a session that has ended
  it is at most \<open>MAX_AUTOMATIC_RETRIES + 1\<close>. Every session returns.
\<close>

theorem C3_retry_counter:
  "(\<exists>s0. QtDownload_new P d url fn fin prog res = Some s0 \<and> m_retryCounter s0 = 0) \<and>
   (\<exists>s1. StartDownload P d url fn fin prog res es = Some s1 \<and>
         m_retryCounter s1 \<le> MAX_AUTOMATIC_RETRIES + 1 \<and>
         (m_reply s1 \<noteq> None \<longrightarrow> m_retryCounter s1 \<le> MAX_AUTOMATIC_RETRIES)) \<and>
   (dispatch P e s = Some s' \<longrightarrow>
      m_retryCounter s' =
        (if transient_failure e s then m_retryCounter s + 1 else m_retryCounter s))"
proof (intro conjI impI)
  show "\<exists>s0. QtDownload_new P d url fn fin prog res = Some s0 \<and> m_retryCounter s0 = 0"
    by (auto simp: QtDownload_new_def QFile_open_def QFile_new_def StartRequest_file Let_def
          split: OpenMode.splits)
next
  obtain s1 where s1: "StartDownload P d url fn fin prog res es = Some s1"
    "session_inv (fn @ DOWNLOADING_FILE_EXTENSION P) url s1"
    using StartDownload_inv by blast
  then show "\<exists>s1. StartDownload P d url fn fin prog res es = Some s1 \<and>
         m_retryCounter s1 \<le> MAX_AUTOMATIC_RETRIES + 1 \<and>
         (m_reply s1 \<noteq> None \<longrightarrow> m_retryCounter s1 \<le> MAX_AUTOMATIC_RETRIES)"
    by (auto simp: session_inv_def split: option.splits)
next
  assume "dispatch P e s = Some s'"
  from dispatch_counter [OF this]
  show "m_retryCounter s' =
        (if transient_failure e s then m_retryCounter s + 1 else m_retryCounter s)"
    by simp
qed

text \<open>
  C3 as stated fails: after three network-layer errors the counter is 3, above
  \<open>MAX_AUTOMATIC_RETRIES\<close>, and the third increment belongs to no retry.
\<close>

theorem C3_counterexample:
  "\<not> m_retryCounter (example_session [Finished 1 None, Finished 1 None, Finished 1 None])
       \<le> MAX_AUTOMATIC_RETRIES"
  by (simp add: example_session_def eval_defs)

theorem C3_witness:
  "m_retryCounter (the (QtDownload_new example_platform empty_disk ''u'' ''f'' True True False)) = 0 \<and>
   m_retryCounter (example_session [Finished 1 None, Finished 1 None, Finished 1 None]) = 3 \<and>
   m_reply (example_session [Finished 1 None, Finished 1 None]) \<noteq> None \<and>
   m_retryCounter (example_session [Finished 1 None, Finished 1 None]) = 2 \<and>
   dispatch example_platform (Finished 1 None) (example_session [Finished 1 None]) =
     Some (example_session [Finished 1 None, Finished 1 None]) \<and>
   transient_failure (Finished 1 None) (example_session [Finished 1 None])"
  using C3_retry_counter [of example_platform empty_disk "''u''" "''f''" True True False
      "[Finished 1 None, Finished 1 None]" "Finished 1 None"
      "example_session [Finished 1 None]" "example_session [Finished 1 None, Finished 1 None]"]
  by (simp add: example_session_def transient_failure_def eval_defs)

subsection \<open>Redirects\<close>

text \<open>
  C4. In any session with a reply in flight, whatever has been streamed so far, a
  terminal notification without error that names a redirection target sets
  \<open>m_currentUrl\<close> to the target resolved against the current URL, leaves the temporary
  file empty and open for writing at position 0, leaves every other file and
  \<open>m_retryCounter\<close> as they were, and issues one new request, for the new URL and without a
  \<open>Range\<close> header.
\<close>

theorem C4_redirect:
  assumes "StartDownload P d url fn fin prog res es = Some s" and "m_reply s \<noteq> None"
  shows "\<exists>s' f. dispatch P (Finished 0 (Some target)) s = Some s' \<and>
      m_currentUrl s' = resolved P (m_currentUrl s) target \<and>
      m_file s' = Some f \<and> fileName f = fn @ DOWNLOADING_FILE_EXTENSION P \<and>
      isOpen f \<and> pos f = 0 \<and>
      files (disk s') = (files (disk s))(fn @ DOWNLOADING_FILE_EXTENSION P \<mapsto> []) \<and>
      m_retryCounter s' = m_retryCounter s \<and>
      m_reply s' = Some (m_currentUrl s', [(''User-Agent'', UserAgent P)]) \<and>
      trace s' = trace s @ [Get (m_currentUrl s', [(''User-Agent'', UserAgent P)])]"
proof -
  from assms(2) obtain r where r: "m_reply s = Some r" by auto
  from StartDownload_flight [OF assms(1) r] obtain f where
    f: "m_file s = Some f" "fileName f = fn @ DOWNLOADING_FILE_EXTENSION P"
       "fn @ DOWNLOADING_FILE_EXTENSION P \<notin> set (locked (disk s))"
       "\<not> m_httpRequestAborted s"
    by blast
  from f r show ?thesis
    by (simp add: dispatch_def OnHttpFinished_redirect StartRequest_file file_size_def)
qed

theorem C4_witness:
  "StartDownload example_platform empty_disk ''u'' ''f'' True True False [ReadyRead ''ab''] =
     Some (example_session [ReadyRead ''ab'']) \<and>
   m_reply (example_session [ReadyRead ''ab'']) \<noteq> None \<and>
   files (disk (example_session [ReadyRead ''ab''])) ''f.downloading'' = Some ''ab'' \<and>
   map_option (\<lambda>s'. (m_currentUrl s', files (disk s') ''f.downloading'', m_retryCounter s',
                     m_reply s'))
     (dispatch example_platform (Finished 0 (Some ''v'')) (example_session [ReadyRead ''ab''])) =
     Some (''v'', Some [], 0, Some (''v'', [(''User-Agent'', ''MWM'')]))"
  using C4_redirect [of example_platform empty_disk "''u''" "''f''" True True False
      "[ReadyRead ''ab'']" "example_session [ReadyRead ''ab'']" "''v''"]
  by (simp add: example_session_def eval_defs)

lemma redirects_run:
  assumes "session_inv tmp url s" and "m_reply s \<noteq> None"
  shows "\<exists>s'. run P (map (\<lambda>t. Finished 0 (Some t)) targets) s = Some s' \<and>
       m_reply s' \<noteq> None \<and>
       filter is_Finish (trace s') = filter is_Finish (trace s) \<and>
       length (requests (trace s')) = length (requests (trace s)) + length targets \<and>
       m_retryCounter s' = m_retryCounter s \<and> deleteLater s' = deleteLater s"
  using assms
proof (induction targets arbitrary: s)
  case Nil
  then show ?case by simp
next
  case (Cons t targets)
  from Cons.prems(2) obtain r where r: "m_reply s = Some r" by auto
  from session_inv_flight [OF Cons.prems(1) r] obtain f where
    f: "m_file s = Some f" "fileName f = tmp" "tmp \<notin> set (locked (disk s))"
       "\<not> m_httpRequestAborted s" by blast
  from dispatch_inv [OF Cons.prems(1), of P "Finished 0 (Some t)"] obtain s1 where
    s1: "dispatch P (Finished 0 (Some t)) s = Some s1" "session_inv tmp url s1" by blast
  from s1(1) f r have props: "m_reply s1 \<noteq> None"
    "filter is_Finish (trace s1) = filter is_Finish (trace s)"
    "length (requests (trace s1)) = Suc (length (requests (trace s)))"
    "m_retryCounter s1 = m_retryCounter s" "deleteLater s1 = deleteLater s"
    by (auto simp: dispatch_def OnHttpFinished_redirect StartRequest_file requests_append)
  from Cons.IH [OF s1(2) props(1)] s1(1) props show ?case by auto
qed

text \<open>
  C10. A session whose temporary file could be opened and that receives nothing but
  redirect notifications, however many, still has a reply in flight after the last of
  them: it has issued one request per redirect on top of the first, has never invoked
  \<open>onFinish\<close>, has not scheduled its deletion, and \<open>m_retryCounter\<close> is still 0. No
  budget bounds the redirects.
\<close>

theorem C10_redirects_unbounded:
  assumes "fst (QFile_open (if res then Append else WriteOnly)
            (QFile_new (fn @ DOWNLOADING_FILE_EXTENSION P)) d)"
  shows "\<exists>s. StartDownload P d url fn fin prog res (map (\<lambda>t. Finished 0 (Some t)) targets) = Some s \<and>
       m_reply s \<noteq> None \<and> filter is_Finish (trace s) = [] \<and>
       length (requests (trace s)) = Suc (length targets) \<and>
       m_retryCounter s = 0 \<and> \<not> deleteLater s"
proof -
  obtain s0 where s0: "QtDownload_new P d url fn fin prog res = Some s0"
    "session_inv (fn @ DOWNLOADING_FILE_EXTENSION P) url s0"
    using QtDownload_new_inv by blast
  from s0(1) assms have init: "m_reply s0 \<noteq> None" "filter is_Finish (trace s0) = []"
    "length (requests (trace s0)) = 1" "m_retryCounter s0 = 0" "\<not> deleteLater s0"
    by (auto simp: QtDownload_new_def Let_def StartRequest_def QFile_open_def QFile_new_def
          split: prod.splits if_splits OpenMode.splits)
  from redirects_run [OF s0(2) init(1), of P targets] s0(1) init show ?thesis
    by (auto simp: StartDownload_def)
qed

theorem C10_witness:
  "fst (QFile_open WriteOnly
           (QFile_new (''f'' @ DOWNLOADING_FILE_EXTENSION example_platform)) empty_disk) \<and>
   map_option (\<lambda>s. (m_reply s \<noteq> None, filter is_Finish (trace s), length (requests (trace s)),
                    m_retryCounter s))
     (StartDownload example_platform empty_disk ''u'' ''f'' True True False
        (map (\<lambda>t. Finished 0 (Some t)) [''a'', ''b'', ''c''])) =
     Some (True, [], 4, 0)"
  using C10_redirects_unbounded [of False "''f''" example_platform empty_disk "''u''" True True
      "[''a'', ''b'', ''c'']"]
  by (simp add: eval_defs)

subsection \<open>Abort\<close>

lemma aborted_dispatch:
  assumes "m_httpRequestAborted s" and "dispatch P e s = Some s'"
  shows "m_httpRequestAborted s' \<and> trace s' = trace s \<and>
     (m_file s' = None \<or> map_option fileName (m_file s') = map_option fileName (m_file s)) \<and>
     (\<forall>p. Some p \<noteq> map_option fileName (m_file s) \<longrightarrow> files (disk s') p = files (disk s) p)"
proof (cases "m_reply s")
  case None
  with assms show ?thesis by (simp add: dispatch_def)
next
  case (Some r)
  show ?thesis
  proof (cases e)
    case (ReadyRead chunk)
    with assms Some show ?thesis
      by (auto simp: dispatch_def OnHttpReadyRead_def QFile_write_def
            split: option.splits prod.splits if_splits)
  next
    case (DownloadProgress a b)
    with assms Some show ?thesis
      by (auto simp: dispatch_def OnUpdateDataReadProgress_def)
  next
    case (Finished netError target)
    show ?thesis
    proof (cases "m_file s")
      case None
      with assms Some Finished show ?thesis by (simp add: dispatch_def OnHttpFinished_def)
    next
      case (Some f)
      with assms \<open>m_reply s = Some r\<close> Finished show ?thesis
        by (auto simp: dispatch_def OnHttpFinished_aborted remove_path_def)
    qed
  next
    case Destroy
    show ?thesis
    proof (cases "m_file s")
      case None
      with assms Some Destroy show ?thesis
        by (simp add: dispatch_def QtDownload_delete_def OnHttpFinished_def)
    next
      case (Some f)
      with assms \<open>m_reply s = Some r\<close> Destroy show ?thesis
        by (auto simp: dispatch_def QtDownload_delete_def OnHttpFinished_aborted remove_path_def)
    qed
  qed
qed

lemma aborted_run:
  "m_httpRequestAborted s \<Longrightarrow> run P es s = Some s' \<Longrightarrow>
   m_httpRequestAborted s' \<and> trace s' = trace s \<and>
   (\<forall>p. Some p \<noteq> map_option fileName (m_file s) \<longrightarrow> files (disk s') p = files (disk s) p)"
proof (induction es arbitrary: s)
  case Nil
  then show ?case by simp
next
  case (Cons e es)
  from Cons.prems(2) obtain s1 where
    s1: "dispatch P e s = Some s1" "run P es s1 = Some s'"
    by (auto split: option.splits)
  note step = aborted_dispatch [OF Cons.prems(1) s1(1)]
  from step have ab: "m_httpRequestAborted s1" by simp
  note rest = Cons.IH [OF ab s1(2)]
  show ?case
  proof (intro conjI allI impI)
    show "m_httpRequestAborted s'" using rest by simp
    show "trace s' = trace s" using rest step by simp
  next
    fix p assume p: "Some p \<noteq> map_option fileName (m_file s)"
    with step have "Some p \<noteq> map_option fileName (m_file s1)" by auto
    with rest have "files (disk s') p = files (disk s1) p" by simp
    with step p show "files (disk s') p = files (disk s) p" by simp
  qed
qed

lemma dispatch_other_files:
  assumes inv: "session_inv tmp url s" and d: "dispatch P e s = Some s'"
    and fl: "m_reply s' \<noteq> None" and p: "p \<noteq> tmp"
  shows "files (disk s') p = files (disk s) p"
proof (cases "m_reply s")
  case None
  with d show ?thesis by (simp add: dispatch_def)
next
  case (Some r)
  from session_inv_flight [OF inv Some] obtain f where
    f: "m_file s = Some f" "fileName f = tmp" "tmp \<notin> set (locked (disk s))"
       "\<not> m_httpRequestAborted s" by blast
  show ?thesis
  proof (cases e)
    case (ReadyRead chunk)
    with d Some f p show ?thesis
      by (auto simp: dispatch_def OnHttpReadyRead_def QFile_write_def split: option.splits)
  next
    case (DownloadProgress a b)
    with d Some show ?thesis
      by (auto simp: dispatch_def OnUpdateDataReadProgress_def)
  next
    case (Finished netError target)
    with d Some have o: "OnHttpFinished P netError target s = Some s'"
      by (simp add: dispatch_def)
    show ?thesis
    proof (cases "netError = 0")
      case False
      show ?thesis
      proof (cases "netError \<le> UnknownNetworkError \<and> Suc (m_retryCounter s) \<le> MAX_AUTOMATIC_RETRIES")
        case True
        with False f Some o show ?thesis
          by (auto simp: OnHttpFinished_retry StartRequest_file)
      next
        case no: False
        from OnHttpFinished_failed [OF f(1) Some f(4) False no] o fl show ?thesis by auto
      qed
    next
      case True
      show ?thesis
      proof (cases target)
        case (Some t)
        with True f \<open>m_reply s = Some r\<close> o p show ?thesis
          by (auto simp: OnHttpFinished_redirect StartRequest_file)
      next
        case None
        with True f Some o fl show ?thesis
          by (auto simp: OnHttpFinished_def Let_def split: prod.splits)
      qed
    qed
  next
    case Destroy
    with d Some f fl show ?thesis
      by (auto simp: dispatch_def QtDownload_delete_def OnHttpFinished_aborted)
  qed
qed

lemma run_other_files:
  "session_inv tmp url s \<Longrightarrow> run P es s = Some s' \<Longrightarrow> m_reply s' \<noteq> None \<Longrightarrow> p \<noteq> tmp \<Longrightarrow>
   files (disk s') p = files (disk s) p"
proof (induction es arbitrary: s)
  case Nil
  then show ?case by simp
next
  case (Cons e es)
  from dispatch_inv [OF Cons.prems(1)] obtain s1 where
    s1: "dispatch P e s = Some s1" "session_inv tmp url s1" by blast
  with Cons.prems(2) have rest: "run P es s1 = Some s'" by simp
  have "m_reply s1 \<noteq> None"
  proof
    assume "m_reply s1 = None"
    from run_terminated [OF this, of P es] rest Cons.prems(3) this show False by simp
  qed
  from dispatch_other_files [OF Cons.prems(1) s1(1) this Cons.prems(4)]
    Cons.IH [OF s1(2) rest Cons.prems(3,4)]
  show ?case by simp
qed

lemma StartDownload_other_files:
  assumes "StartDownload P d url fn fin prog res es = Some s" and "m_reply s \<noteq> None"
    and "p \<noteq> fn @ DOWNLOADING_FILE_EXTENSION P"
  shows "files (disk s) p = files d p"
proof -
  obtain s0 where s0: "QtDownload_new P d url fn fin prog res = Some s0"
    "session_inv (fn @ DOWNLOADING_FILE_EXTENSION P) url s0"
    using QtDownload_new_inv by blast
  with assms(1) have run: "run P es s0 = Some s" by (simp add: StartDownload_def)
  from s0(1) assms(3) have "files (disk s0) p = files d p"
    by (auto simp: QtDownload_new_def QFile_open_def QFile_new_def StartRequest_def Let_def
          split: if_splits OpenMode.splits option.splits)
  with run_other_files [OF s0(2) run assms(2,3)] show ?thesis by simp
qed

lemma Destroy_flight:
  assumes "StartDownload P d url fn fin prog res es = Some s" and "m_reply s \<noteq> None"
  shows "dispatch P Destroy s =
     Some (s\<lparr>m_httpRequestAborted := True, m_file := None, m_reply := None,
             disk := (disk s)\<lparr>files :=
               (files (disk s))(fn @ DOWNLOADING_FILE_EXTENSION P := None)\<rparr>\<rparr>)"
proof -
  from assms(2) obtain r where r: "m_reply s = Some r" by auto
  from StartDownload_flight [OF assms(1) r] obtain f where
    f: "m_file s = Some f" "fileName f = fn @ DOWNLOADING_FILE_EXTENSION P"
       "fn @ DOWNLOADING_FILE_EXTENSION P \<notin> set (locked (disk s))"
       "files (disk s) (fn @ DOWNLOADING_FILE_EXTENSION P) \<noteq> None"
    by blast
  from f r show ?thesis
    by (simp add: dispatch_def QtDownload_delete_def OnHttpFinished_aborted remove_path_def)
qed

text \<open>
  C5. First, from any state in which \<open>m_httpRequestAborted\<close> is set, whatever signals
  follow: the flag stays set, the trace does not grow (no \<open>onFinish\<close>, no \<open>onProgress\<close>,
  no request), and no file other than the temporary file changes. Second, destroying a
  session that has a reply in flight, whatever was streamed before and whatever signals
  come after: the flag is set, the trace is what it was, the reply and the file object are
  released, the temporary file is gone and every other file is what it was when the session
  was started.
\<close>

theorem C5_abort:
  "(m_httpRequestAborted s \<longrightarrow> run P es s = Some s' \<longrightarrow>
      m_httpRequestAborted s' \<and> trace s' = trace s \<and>
      (\<forall>p. Some p \<noteq> map_option fileName (m_file s) \<longrightarrow>
           files (disk s') p = files (disk s) p)) \<and>
   (StartDownload P d url fn fin prog res es0 = Some s0 \<longrightarrow> m_reply s0 \<noteq> None \<longrightarrow>
      (\<exists>s1. StartDownload P d url fn fin prog res (es0 @ Destroy # es1) = Some s1 \<and>
         m_httpRequestAborted s1 \<and> trace s1 = trace s0 \<and>
         m_reply s1 = None \<and> m_file s1 = None \<and>
         files (disk s1) = (files (disk s0))(fn @ DOWNLOADING_FILE_EXTENSION P := None) \<and>
         (\<forall>p. p \<noteq> fn @ DOWNLOADING_FILE_EXTENSION P \<longrightarrow> files (disk s1) p = files d p)))"
proof (rule conjI)
  show "m_httpRequestAborted s \<longrightarrow> run P es s = Some s' \<longrightarrow>
      m_httpRequestAborted s' \<and> trace s' = trace s \<and>
      (\<forall>p. Some p \<noteq> map_option fileName (m_file s) \<longrightarrow>
           files (disk s') p = files (disk s) p)"
    using aborted_run [of s P es s'] by blast
next
  show "StartDownload P d url fn fin prog res es0 = Some s0 \<longrightarrow> m_reply s0 \<noteq> None \<longrightarrow>
      (\<exists>s1. StartDownload P d url fn fin prog res (es0 @ Destroy # es1) = Some s1 \<and>
         m_httpRequestAborted s1 \<and> trace s1 = trace s0 \<and>
         m_reply s1 = None \<and> m_file s1 = None \<and>
         files (disk s1) = (files (disk s0))(fn @ DOWNLOADING_FILE_EXTENSION P := None) \<and>
         (\<forall>p. p \<noteq> fn @ DOWNLOADING_FILE_EXTENSION P \<longrightarrow> files (disk s1) p = files d p))"
  proof (intro impI)
  assume s0: "StartDownload P d url fn fin prog res es0 = Some s0" and fl: "m_reply s0 \<noteq> None"
  let ?s1 = "s0\<lparr>m_httpRequestAborted := True, m_file := None, m_reply := None,
             disk := (disk s0)\<lparr>files :=
               (files (disk s0))(fn @ DOWNLOADING_FILE_EXTENSION P := None)\<rparr>\<rparr>"
  have "run P (Destroy # es1) s0 = Some ?s1"
    using Destroy_flight [OF s0 fl] by (simp add: run_terminated)
  with StartDownload_append [OF s0, of "Destroy # es1"]
  show "\<exists>s1. StartDownload P d url fn fin prog res (es0 @ Destroy # es1) = Some s1 \<and>
         m_httpRequestAborted s1 \<and> trace s1 = trace s0 \<and>
         m_reply s1 = None \<and> m_file s1 = None \<and>
         files (disk s1) = (files (disk s0))(fn @ DOWNLOADING_FILE_EXTENSION P := None) \<and>
         (\<forall>p. p \<noteq> fn @ DOWNLOADING_FILE_EXTENSION P \<longrightarrow> files (disk s1) p = files d p)"
    using StartDownload_other_files [OF s0 fl] by simp
  qed
qed

theorem C5_witness:
  "StartDownload example_platform free_disk ''u'' ''f'' True True False
       [DownloadProgress 2 4, ReadyRead ''ab''] \<noteq> None \<and>
   map_option (\<lambda>s. (m_reply s \<noteq> None, trace s, files (disk s) ''f'',
                    files (disk s) ''f.downloading''))
     (StartDownload example_platform free_disk ''u'' ''f'' True True False
       [DownloadProgress 2 4, ReadyRead ''ab'']) =
     Some (True, [Get (''u'', [(''User-Agent'', ''MWM'')]), Progress ''u'' 2 4],
           Some ''old'', Some ''ab'') \<and>
   map_option (\<lambda>s. (m_httpRequestAborted s, trace s, files (disk s) ''f'',
                    files (disk s) ''f.downloading''))
     (StartDownload example_platform free_disk ''u'' ''f'' True True False
       ([DownloadProgress 2 4, ReadyRead ''ab''] @
        Destroy # [DownloadProgress 4 4, ReadyRead ''cd'', Finished 0 None])) =
     Some (True, [Get (''u'', [(''User-Agent'', ''MWM'')]), Progress ''u'' 2 4],
           Some ''old'', None) \<and>
   map_option (\<lambda>s. (m_httpRequestAborted s, trace s, files (disk s) ''f.downloading''))
     (run example_platform [DownloadProgress 4 4, ReadyRead ''cd'', Finished 0 None]
        ((example_session [ReadyRead ''ab''])\<lparr>m_httpRequestAborted := True\<rparr>)) =
     Some (True, [Get (''u'', [(''User-Agent'', ''MWM'')])], None)"
  using C5_abort [of "(example_session [ReadyRead ''ab''])\<lparr>m_httpRequestAborted := True\<rparr>"
      example_platform "[DownloadProgress 4 4, ReadyRead ''cd'', Finished 0 None]"
      "the (run example_platform [DownloadProgress 4 4, ReadyRead ''cd'', Finished 0 None]
        ((example_session [ReadyRead ''ab''])\<lparr>m_httpRequestAborted := True\<rparr>))"
      free_disk "''u''" "''f''" True True False "[DownloadProgress 2 4, ReadyRead ''ab'']"
      "the (StartDownload example_platform free_disk ''u'' ''f'' True True False
       [DownloadProgress 2 4, ReadyRead ''ab''])"
      "[DownloadProgress 4 4, ReadyRead ''cd'', Finished 0 None]"]
  by (simp add: example_session_def free_disk_def eval_defs)

subsection \<open>Finalization\<close>

lemma OnHttpFinished_success_flight:
  assumes "StartDownload P d url fn fin prog res es = Some s" and "m_reply s \<noteq> None"
    and "DOWNLOADING_FILE_EXTENSION P \<noteq> []"
  shows "\<exists>f c. m_file s = Some f \<and> fileName f = fn @ DOWNLOADING_FILE_EXTENSION P \<and>
     files (disk s) (fn @ DOWNLOADING_FILE_EXTENSION P) = Some c \<and>
     dispatch P (Finished 0 None) s =
     Some (s\<lparr>m_file := None, m_reply := None,
             disk := (disk s)\<lparr>files :=
                (if fn = [] \<or> files (disk s) fn \<noteq> None \<and> fn \<in> set (locked (disk s))
                 then (files (disk s))(fn @ DOWNLOADING_FILE_EXTENSION P := None)
                 else (files (disk s))(fn @ DOWNLOADING_FILE_EXTENSION P := None, fn \<mapsto> c))\<rparr>,
             trace := trace s @
               (if m_finish s
                then [Finish url
                       (if fn = [] \<or> files (disk s) fn \<noteq> None \<and> fn \<in> set (locked (disk s))
                        then EHttpDownloadFileIsLocked else EHttpDownloadOk)]
                else []),
             deleteLater := True\<rparr>)"
proof -
  from assms(2) obtain r where r: "m_reply s = Some r" by auto
  from StartDownload_flight [OF assms(1) r] obtain f c where
    f: "m_file s = Some f" "fileName f = fn @ DOWNLOADING_FILE_EXTENSION P"
       "fn @ DOWNLOADING_FILE_EXTENSION P \<notin> set (locked (disk s))"
       "files (disk s) (fn @ DOWNLOADING_FILE_EXTENSION P) = Some c"
       "\<not> m_httpRequestAborted s" "objectName s = url"
    by blast
  from f(3,4) have f': "fileName f \<notin> set (locked (disk s))" "files (disk s) (fileName f) = Some c"
    by (simp_all add: f(2))
  have d: "dispatch P (Finished 0 None) s = OnHttpFinished P 0 None s"
    using r by (simp add: dispatch_def)
  note st = OnHttpFinished_success [OF f(1) r f(5) f(2) assms(3) f']
  show ?thesis
  proof (intro exI conjI)
    show "m_file s = Some f" by fact
    show "fileName f = fn @ DOWNLOADING_FILE_EXTENSION P" by fact
    show "files (disk s) (fn @ DOWNLOADING_FILE_EXTENSION P) = Some c" by fact
    show "dispatch P (Finished 0 None) s =
     Some (s\<lparr>m_file := None, m_reply := None,
             disk := (disk s)\<lparr>files :=
                (if fn = [] \<or> files (disk s) fn \<noteq> None \<and> fn \<in> set (locked (disk s))
                 then (files (disk s))(fn @ DOWNLOADING_FILE_EXTENSION P := None)
                 else (files (disk s))(fn @ DOWNLOADING_FILE_EXTENSION P := None, fn \<mapsto> c))\<rparr>,
             trace := trace s @
               (if m_finish s
                then [Finish url
                       (if fn = [] \<or> files (disk s) fn \<noteq> None \<and> fn \<in> set (locked (disk s))
                        then EHttpDownloadFileIsLocked else EHttpDownloadOk)]
                else []),
             deleteLater := True\<rparr>)"
      unfolding d st f(2) f(6) ..
  qed
qed

lemma rename_result:
  assumes "fileName f = fn @ DOWNLOADING_FILE_EXTENSION P" and "DOWNLOADING_FILE_EXTENSION P \<noteq> []"
    and "files d (fileName f) = Some c" and "fileName f \<notin> set (locked d)"
  shows "fst (QFile_rename fn (QFile_close f) (snd (QFile_remove_name fn d))) =
     (fn \<noteq> [] \<and> \<not> (files d fn \<noteq> None \<and> fn \<in> set (locked d)))"
proof -
  from assms(1,2) have "fileName f \<noteq> []" "fn \<noteq> fileName f" by simp_all
  with assms(3,4) show ?thesis
    by (auto simp: QFile_rename_def QFile_remove_name_def remove_path_def QFile_close_def)
qed

text \<open>
  C6. In any session with a reply in flight, a terminal notification without error and
  without redirection target ends the session and leaves no temporary file. Removing a file
  at the destination is attempted first, whatever it is. The rename that follows succeeds
  exactly when the destination name is not empty and no locked file is at the destination.
  If it succeeds, the destination holds the bytes of the temporary file and the status is
  \<open>EHttpDownloadOk\<close>. If it fails, the temporary file is removed all the same, the
  destination is byte for byte what it was and the status is \<open>EHttpDownloadFileIsLocked\<close>.
  No other file changes.
\<close>

theorem C6_finalization:
  assumes "StartDownload P d url fn fin prog res es = Some s" and "m_reply s \<noteq> None"
    and "DOWNLOADING_FILE_EXTENSION P \<noteq> []"
  shows "\<exists>s' f c. m_file s = Some f \<and>
      files (disk s) (fn @ DOWNLOADING_FILE_EXTENSION P) = Some c \<and>
      dispatch P (Finished 0 None) s = Some s' \<and>
      m_reply s' = None \<and> m_file s' = None \<and>
      files (disk s') (fn @ DOWNLOADING_FILE_EXTENSION P) = None \<and>
      (\<forall>p. p \<noteq> fn \<and> p \<noteq> fn @ DOWNLOADING_FILE_EXTENSION P \<longrightarrow>
           files (disk s') p = files (disk s) p) \<and>
      fst (QFile_rename fn (QFile_close f) (snd (QFile_remove_name fn (disk s)))) =
        (fn \<noteq> [] \<and> \<not> (files (disk s) fn \<noteq> None \<and> fn \<in> set (locked (disk s)))) \<and>
      (if fst (QFile_rename fn (QFile_close f) (snd (QFile_remove_name fn (disk s))))
       then files (disk s') fn = Some c \<and>
            trace s' = trace s @ (if m_finish s then [Finish url EHttpDownloadOk] else [])
       else files (disk s') fn = files (disk s) fn \<and>
            trace s' = trace s @
              (if m_finish s then [Finish url EHttpDownloadFileIsLocked] else []))"
proof -
  from OnHttpFinished_success_flight [OF assms] obtain f c where
    f: "m_file s = Some f" "fileName f = fn @ DOWNLOADING_FILE_EXTENSION P"
    and c: "files (disk s) (fn @ DOWNLOADING_FILE_EXTENSION P) = Some c"
    and step: "dispatch P (Finished 0 None) s =
     Some (s\<lparr>m_file := None, m_reply := None,
             disk := (disk s)\<lparr>files :=
                (if fn = [] \<or> files (disk s) fn \<noteq> None \<and> fn \<in> set (locked (disk s))
                 then (files (disk s))(fn @ DOWNLOADING_FILE_EXTENSION P := None)
                 else (files (disk s))(fn @ DOWNLOADING_FILE_EXTENSION P := None, fn \<mapsto> c))\<rparr>,
             trace := trace s @
               (if m_finish s
                then [Finish url
                       (if fn = [] \<or> files (disk s) fn \<noteq> None \<and> fn \<in> set (locked (disk s))
                        then EHttpDownloadFileIsLocked else EHttpDownloadOk)]
                else []),
             deleteLater := True\<rparr>)"
    by blast
  from assms(2) obtain r where "m_reply s = Some r" by auto
  from StartDownload_flight [OF assms(1) this]
  have nl: "fn @ DOWNLOADING_FILE_EXTENSION P \<notin> set (locked (disk s))" by auto
  from c nl f(2) have "files (disk s) (fileName f) = Some c" "fileName f \<notin> set (locked (disk s))"
    by simp_all
  from rename_result [OF f(2) assms(3) this]
  have ok: "fst (QFile_rename fn (QFile_close f) (snd (QFile_remove_name fn (disk s)))) =
        (fn \<noteq> [] \<and> \<not> (files (disk s) fn \<noteq> None \<and> fn \<in> set (locked (disk s))))" .
  from assms(3) have ne: "fn \<noteq> fn @ DOWNLOADING_FILE_EXTENSION P" by simp
  define fails where
    "fails \<longleftrightarrow> fn = [] \<or> files (disk s) fn \<noteq> None \<and> fn \<in> set (locked (disk s))"
  from ok have ok': "fst (QFile_rename fn (QFile_close f) (snd (QFile_remove_name fn (disk s)))) =
      (\<not> fails)"
    unfolding fails_def by blast
  from step obtain s' where s': "dispatch P (Finished 0 None) s = Some s'"
    and ended: "m_reply s' = None" "m_file s' = None"
    and fs: "files (disk s') =
      (if fails then (files (disk s))(fn @ DOWNLOADING_FILE_EXTENSION P := None)
       else (files (disk s))(fn @ DOWNLOADING_FILE_EXTENSION P := None, fn \<mapsto> c))"
    and tr: "trace s' = trace s @
      (if m_finish s
       then [Finish url (if fails then EHttpDownloadFileIsLocked else EHttpDownloadOk)]
       else [])"
    unfolding fails_def by simp
  have gone: "files (disk s') (fn @ DOWNLOADING_FILE_EXTENSION P) = None"
    using fs ne by simp
  have others: "\<forall>p. p \<noteq> fn \<and> p \<noteq> fn @ DOWNLOADING_FILE_EXTENSION P \<longrightarrow>
      files (disk s') p = files (disk s) p"
    using fs by simp
  have outcome:
    "if fst (QFile_rename fn (QFile_close f) (snd (QFile_remove_name fn (disk s))))
     then files (disk s') fn = Some c \<and>
          trace s' = trace s @ (if m_finish s then [Finish url EHttpDownloadOk] else [])
     else files (disk s') fn = files (disk s) fn \<and>
          trace s' = trace s @
            (if m_finish s then [Finish url EHttpDownloadFileIsLocked] else [])"
    unfolding ok' using fs tr ne by (cases fails) simp_all
  from f(1) c s' ended gone others ok outcome show ?thesis by blast
qed

theorem C6_witness:
  "DOWNLOADING_FILE_EXTENSION example_platform \<noteq> [] \<and>
   map_option (\<lambda>s. (m_reply s \<noteq> None, files (disk s) ''f'', files (disk s) ''f.downloading''))
     (StartDownload example_platform free_disk ''u'' ''f'' True True False [ReadyRead ''new'']) =
     Some (True, Some ''old'', Some ''new'') \<and>
   map_option (\<lambda>s. (trace s, files (disk s) ''f'', files (disk s) ''f.downloading''))
     (dispatch example_platform (Finished 0 None)
        (the (StartDownload example_platform free_disk ''u'' ''f'' True True False
           [ReadyRead ''new'']))) =
     Some ([Get (''u'', [(''User-Agent'', ''MWM'')]), Finish ''u'' EHttpDownloadOk],
           Some ''new'', None) \<and>
   map_option (\<lambda>s. (m_reply s \<noteq> None, files (disk s) ''f'', files (disk s) ''f.downloading''))
     (StartDownload example_platform locked_disk ''u'' ''f'' True True False [ReadyRead ''new'']) =
     Some (True, Some ''old'', Some ''new'') \<and>
   map_option (\<lambda>s. (trace s, files (disk s) ''f'', files (disk s) ''f.downloading''))
     (dispatch example_platform (Finished 0 None)
        (the (StartDownload example_platform locked_disk ''u'' ''f'' True True False
           [ReadyRead ''new'']))) =
     Some ([Get (''u'', [(''User-Agent'', ''MWM'')]), Finish ''u'' EHttpDownloadFileIsLocked],
           Some ''old'', None) \<and>
   map_option (\<lambda>s. (m_reply s \<noteq> None, files (disk s) [], files (disk s) ''.downloading''))
     (StartDownload example_platform empty_disk ''u'' [] True True False [ReadyRead ''new'']) =
     Some (True, None, Some ''new'') \<and>
   map_option (\<lambda>s. (trace s, files (disk s) [], files (disk s) ''.downloading''))
     (dispatch example_platform (Finished 0 None)
        (the (StartDownload example_platform empty_disk ''u'' [] True True False
           [ReadyRead ''new'']))) =
     Some ([Get (''u'', [(''User-Agent'', ''MWM'')]), Finish ''u'' EHttpDownloadFileIsLocked],
           None, None)"
  using C6_finalization [of example_platform free_disk "''u''" "''f''" True True False
      "[ReadyRead ''new'']"
      "the (StartDownload example_platform free_disk ''u'' ''f'' True True False
           [ReadyRead ''new''])"]
    C6_finalization [of example_platform locked_disk "''u''" "''f''" True True False
      "[ReadyRead ''new'']"
      "the (StartDownload example_platform locked_disk ''u'' ''f'' True True False
           [ReadyRead ''new''])"]
    C6_finalization [of example_platform empty_disk "''u''" "[]" True True False
      "[ReadyRead ''new'']"
      "the (StartDownload example_platform empty_disk ''u'' [] True True False
           [ReadyRead ''new''])"]
  by (simp add: free_disk_def locked_disk_def eval_defs)

subsection \<open>The terminal callback\<close>

lemma dispatch_finish_inv:
  assumes inv: "session_inv tmp url s" and fi: "finish_inv url s"
    and d: "dispatch P e s = Some s'"
  shows "finish_inv url s'"
proof (cases "m_reply s")
  case None
  with d fi show ?thesis by (simp add: dispatch_def)
next
  case (Some r)
  from session_inv_flight [OF inv Some] obtain f where
    f: "m_file s = Some f" "\<not> m_httpRequestAborted s" "objectName s = url" by blast
  from fi Some have nil: "filter is_Finish (trace s) = []" and mf: "m_finish s"
    by (simp_all add: finish_inv_def)
  show ?thesis
  proof (cases e)
    case (ReadyRead chunk)
    with d Some have "s' = OnHttpReadyRead chunk s" by (simp add: dispatch_def)
    then have "m_reply s' = m_reply s \<and> trace s' = trace s \<and> m_finish s' = m_finish s \<and>
      m_httpRequestAborted s' = m_httpRequestAborted s"
      by (simp add: OnHttpReadyRead_def split: option.splits prod.splits)
    with fi show ?thesis by (simp add: finish_inv_def)
  next
    case (DownloadProgress a b)
    with d Some have "s' = OnUpdateDataReadProgress a b s" by (simp add: dispatch_def)
    then have "m_reply s' = m_reply s \<and>
      filter is_Finish (trace s') = filter is_Finish (trace s) \<and> m_finish s' = m_finish s \<and>
      m_httpRequestAborted s' = m_httpRequestAborted s"
      by (simp add: OnUpdateDataReadProgress_def)
    with fi show ?thesis by (simp add: finish_inv_def)
  next
    case (Finished netError target)
    with d Some have "OnHttpFinished P netError target s = Some s'"
      by (simp add: dispatch_def)
    from OnHttpFinished_trace [OF f(1) Some f(2) this] nil mf f(3)
    show ?thesis by (auto simp: finish_inv_def)
  next
    case Destroy
    with d Some f show ?thesis
      using nil mf
      by (auto simp: dispatch_def QtDownload_delete_def OnHttpFinished_aborted finish_inv_def)
  qed
qed

lemma run_finish_inv:
  "session_inv tmp url s \<Longrightarrow> finish_inv url s \<Longrightarrow> run P es s = Some s' \<Longrightarrow>
   finish_inv url s'"
proof (induction es arbitrary: s)
  case Nil
  then show ?case by simp
next
  case (Cons e es)
  from dispatch_inv [OF Cons.prems(1)] obtain s1 where
    s1: "dispatch P e s = Some s1" "session_inv tmp url s1" by blast
  from dispatch_finish_inv [OF Cons.prems(1,2) s1(1)] have "finish_inv url s1" .
  from Cons.IH [OF s1(2) this] Cons.prems(3) s1(1) show ?case by simp
qed

lemma QtDownload_new_finish_inv:
  "QtDownload_new P d url fn True prog res = Some s0 \<Longrightarrow> finish_inv url s0"
  by (auto simp: QtDownload_new_def QFile_open_def QFile_new_def StartRequest_file
        finish_inv_def Let_def split: OpenMode.splits if_splits)

lemma status_cases:
  "st \<in> {EHttpDownloadOk, EHttpDownloadFailed, EHttpDownloadFileNotFound,
          EHttpDownloadFileIsLocked}"
  by (cases st) simp_all

text \<open>
  C7. A session started with an \<open>onFinish\<close> callback always returns. While a reply is
  in flight, and in an aborted session, \<open>onFinish\<close> has not been invoked; in a session
  that has ended without abort it has been invoked exactly once, for the session's URL and
  with one of the four statuses. A terminal notification after which a reply is still in
  flight (a retry or a redirect) adds one request to the trace and no callback.
\<close>

theorem C7_single_finish:
  "(\<exists>s. StartDownload P d url fn True prog res es = Some s \<and>
        (if m_httpRequestAborted s \<or> m_reply s \<noteq> None
         then filter is_Finish (trace s) = []
         else \<exists>st \<in> {EHttpDownloadOk, EHttpDownloadFailed, EHttpDownloadFileNotFound,
                      EHttpDownloadFileIsLocked}.
                filter is_Finish (trace s) = [Finish url st])) \<and>
   (dispatch P (Finished netError target) s1 = Some s2 \<longrightarrow> m_reply s2 \<noteq> None \<longrightarrow>
      \<not> m_httpRequestAborted s1 \<longrightarrow>
      (\<exists>rq. trace s2 = trace s1 @ [Get rq]))"
proof (rule conjI)
  obtain s0 where s0: "QtDownload_new P d url fn True prog res = Some s0"
    "session_inv (fn @ DOWNLOADING_FILE_EXTENSION P) url s0"
    using QtDownload_new_inv by blast
  from run_inv [OF s0(2)] obtain s where s: "run P es s0 = Some s" by blast
  from run_finish_inv [OF s0(2) QtDownload_new_finish_inv [OF s0(1)] s]
  have fi: "finish_inv url s" .
  from s s0(1) have run: "StartDownload P d url fn True prog res es = Some s"
    by (simp add: StartDownload_def)
  have "if m_httpRequestAborted s \<or> m_reply s \<noteq> None
         then filter is_Finish (trace s) = []
         else \<exists>st \<in> {EHttpDownloadOk, EHttpDownloadFailed, EHttpDownloadFileNotFound,
                      EHttpDownloadFileIsLocked}.
                filter is_Finish (trace s) = [Finish url st]"
  proof (cases "m_httpRequestAborted s \<or> m_reply s \<noteq> None")
    case True
    with fi have "filter is_Finish (trace s) = []" unfolding finish_inv_def by presburger
    with True show ?thesis by presburger
  next
    case False
    with fi obtain st where "filter is_Finish (trace s) = [Finish url st]"
      unfolding finish_inv_def by presburger
    with status_cases [of st] have "\<exists>st \<in> {EHttpDownloadOk, EHttpDownloadFailed,
        EHttpDownloadFileNotFound, EHttpDownloadFileIsLocked}.
      filter is_Finish (trace s) = [Finish url st]" by blast
    with False show ?thesis by presburger
  qed
  with run
  show "\<exists>s. StartDownload P d url fn True prog res es = Some s \<and>
        (if m_httpRequestAborted s \<or> m_reply s \<noteq> None
         then filter is_Finish (trace s) = []
         else \<exists>st \<in> {EHttpDownloadOk, EHttpDownloadFailed, EHttpDownloadFileNotFound,
                      EHttpDownloadFileIsLocked}.
                filter is_Finish (trace s) = [Finish url st])"
    by blast
next
  show "dispatch P (Finished netError target) s1 = Some s2 \<longrightarrow> m_reply s2 \<noteq> None \<longrightarrow>
      \<not> m_httpRequestAborted s1 \<longrightarrow> (\<exists>rq. trace s2 = trace s1 @ [Get rq])"
  proof (intro impI)
    assume d: "dispatch P (Finished netError target) s1 = Some s2"
      and fl: "m_reply s2 \<noteq> None" and na: "\<not> m_httpRequestAborted s1"
    show "\<exists>rq. trace s2 = trace s1 @ [Get rq]"
    proof (cases "m_reply s1")
      case None
      with d fl show ?thesis by (simp add: dispatch_def)
    next
      case (Some r)
      with d have o: "OnHttpFinished P netError target s1 = Some s2"
        by (simp add: dispatch_def)
      then obtain f where "m_file s1 = Some f"
        by (cases "m_file s1") (auto simp: OnHttpFinished_def)
      from OnHttpFinished_trace [OF this Some na o] fl show ?thesis by auto
    qed
  qed
qed

theorem C7_witness:
  "map_option (\<lambda>s. (m_httpRequestAborted s \<or> m_reply s \<noteq> None, filter is_Finish (trace s)))
     (StartDownload example_platform empty_disk ''u'' ''f'' True True False
        [Finished 1 None, Finished 0 (Some ''v''), DownloadProgress 1 1, Finished 0 None,
         Finished 0 None, Destroy]) =
     Some (False, [Finish ''u'' EHttpDownloadOk]) \<and>
   dispatch example_platform (Finished 1 None) (example_session []) =
     Some (example_session [Finished 1 None]) \<and>
   m_reply (example_session [Finished 1 None]) \<noteq> None \<and>
   \<not> m_httpRequestAborted (example_session [])"
  using C7_single_finish [of example_platform empty_disk "''u''" "''f''" True False
      "[Finished 1 None, Finished 0 (Some ''v''), DownloadProgress 1 1, Finished 0 None,
         Finished 0 None, Destroy]" 1 None "example_session []"
      "example_session [Finished 1 None]"]
  by (simp add: example_session_def eval_defs)

subsection \<open>Request headers\<close>

lemma OnHttpFinished_flight_requests:
  assumes inv: "session_inv tmp url s" and r: "m_reply s = Some r"
    and o: "OnHttpFinished P netError target s = Some s'" and fl: "m_reply s' \<noteq> None"
  shows "requests (trace s') =
     requests (trace s) @ [expected_request P (m_currentUrl s') (file_size (disk s') tmp)]"
proof -
  from session_inv_flight [OF inv r] obtain f where
    f: "m_file s = Some f" "fileName f = tmp" "tmp \<notin> set (locked (disk s))"
       "\<not> m_httpRequestAborted s" by blast
  show ?thesis
  proof (cases "netError = 0")
    case False
    show ?thesis
    proof (cases "netError \<le> UnknownNetworkError \<and> Suc (m_retryCounter s) \<le> MAX_AUTOMATIC_RETRIES")
      case True
      with False f r o show ?thesis
        by (auto simp: OnHttpFinished_retry StartRequest_file QFile_close_def requests_append
              expected_request_def)
    next
      case no: False
      from OnHttpFinished_failed [OF f(1) r f(4) False no] o fl show ?thesis by auto
    qed
  next
    case True
    show ?thesis
    proof (cases target)
      case (Some t)
      with True f r o show ?thesis
        by (auto simp: OnHttpFinished_redirect StartRequest_file requests_append
              expected_request_def file_size_def)
    next
      case None
      with True f r o fl show ?thesis
        by (auto simp: OnHttpFinished_def Let_def split: prod.splits)
    qed
  qed
qed

lemma dispatch_requests:
  assumes inv: "session_inv tmp url s" and d: "dispatch P e s = Some s'"
  shows "requests (trace s') = requests (trace s) \<or>
     requests (trace s') =
       requests (trace s) @ [expected_request P (m_currentUrl s') (file_size (disk s') tmp)]"
proof (cases "m_reply s")
  case None
  with d show ?thesis by (simp add: dispatch_def)
next
  case (Some r)
  show ?thesis
  proof (cases e)
    case (ReadyRead chunk)
    with d Some have "s' = OnHttpReadyRead chunk s" by (simp add: dispatch_def)
    then have "trace s' = trace s"
      by (simp add: OnHttpReadyRead_def split: option.splits prod.splits)
    then show ?thesis by simp
  next
    case (DownloadProgress a b)
    with d Some have "s' = OnUpdateDataReadProgress a b s" by (simp add: dispatch_def)
    then have "requests (trace s') = requests (trace s)"
      by (simp add: OnUpdateDataReadProgress_def requests_append)
    then show ?thesis by simp
  next
    case (Finished netError target)
    with d Some have o: "OnHttpFinished P netError target s = Some s'"
      by (simp add: dispatch_def)
    show ?thesis
    proof (cases "m_reply s'")
      case None
      from OnHttpFinished_terminal_requests [OF o None] show ?thesis by simp
    next
      case (Some r')
      then have "m_reply s' \<noteq> None" by simp
      from OnHttpFinished_flight_requests [OF inv \<open>m_reply s = Some r\<close> o this]
      show ?thesis by simp
    qed
  next
    case Destroy
    from session_inv_flight [OF inv Some] obtain f where "m_file s = Some f" by blast
    with d Some Destroy show ?thesis
      by (auto simp: dispatch_def QtDownload_delete_def OnHttpFinished_aborted)
  qed
qed

text \<open>
  C8. \<^verbatim>\<open>StartRequest\<close> issues the expected request for the current URL and the current
  size of the temporary file: a \<open>Range\<close> header \<open>bytes=S-\<close> iff that size \<open>S\<close> is
  positive. In a session, every signal either issues no request or issues exactly the
  expected request for the URL and the size of the temporary file at that moment. A
  session started with \<open>useResume\<close> on a temporary file of \<open>S > 0\<close> bytes keeps the file
  and issues its first request with \<open>Range: bytes=S-\<close>.
\<close>

theorem C8_range_header:
  "(m_file s = Some f \<longrightarrow>
      (\<exists>s'. StartRequest P s = Some s' \<and>
         m_reply s' =
           Some (expected_request P (m_currentUrl s) (file_size (disk s) (fileName f))) \<and>
         trace s' = trace s @
           [Get (expected_request P (m_currentUrl s) (file_size (disk s) (fileName f)))])) \<and>
   (StartDownload P d url fn fin prog res es = Some s1 \<longrightarrow> dispatch P e s1 = Some s2 \<longrightarrow>
      requests (trace s2) = requests (trace s1) \<or>
      requests (trace s2) =
        requests (trace s1) @
        [expected_request P (m_currentUrl s2)
           (file_size (disk s2) (fn @ DOWNLOADING_FILE_EXTENSION P))]) \<and>
   (files d (fn @ DOWNLOADING_FILE_EXTENSION P) = Some c \<longrightarrow> c \<noteq> [] \<longrightarrow>
    fn @ DOWNLOADING_FILE_EXTENSION P \<notin> set (locked d) \<longrightarrow>
      (\<exists>s0. QtDownload_new P d url fn fin prog True = Some s0 \<and>
         files (disk s0) (fn @ DOWNLOADING_FILE_EXTENSION P) = Some c \<and>
         trace s0 =
           [Get (url, [(''User-Agent'', UserAgent P),
                       (''Range'', ''bytes='' @ arg_decimal (length c) @ ''-'')])]))"
proof (intro conjI)
  show "m_file s = Some f \<longrightarrow>
      (\<exists>s'. StartRequest P s = Some s' \<and>
         m_reply s' =
           Some (expected_request P (m_currentUrl s) (file_size (disk s) (fileName f))) \<and>
         trace s' = trace s @
           [Get (expected_request P (m_currentUrl s) (file_size (disk s) (fileName f)))])"
    by (simp add: StartRequest_def Let_def expected_request_def)
next
  show "StartDownload P d url fn fin prog res es = Some s1 \<longrightarrow> dispatch P e s1 = Some s2 \<longrightarrow>
      requests (trace s2) = requests (trace s1) \<or>
      requests (trace s2) =
        requests (trace s1) @
        [expected_request P (m_currentUrl s2)
           (file_size (disk s2) (fn @ DOWNLOADING_FILE_EXTENSION P))]"
  proof (intro impI)
    assume s1: "StartDownload P d url fn fin prog res es = Some s1"
      and d: "dispatch P e s1 = Some s2"
    from StartDownload_inv [of P d url fn fin prog res es] s1
    have "session_inv (fn @ DOWNLOADING_FILE_EXTENSION P) url s1" by auto
    from dispatch_requests [OF this d]
    show "requests (trace s2) = requests (trace s1) \<or>
      requests (trace s2) =
        requests (trace s1) @
        [expected_request P (m_currentUrl s2)
           (file_size (disk s2) (fn @ DOWNLOADING_FILE_EXTENSION P))]" .
  qed
next
  show "files d (fn @ DOWNLOADING_FILE_EXTENSION P) = Some c \<longrightarrow> c \<noteq> [] \<longrightarrow>
    fn @ DOWNLOADING_FILE_EXTENSION P \<notin> set (locked d) \<longrightarrow>
      (\<exists>s0. QtDownload_new P d url fn fin prog True = Some s0 \<and>
         files (disk s0) (fn @ DOWNLOADING_FILE_EXTENSION P) = Some c \<and>
         trace s0 =
           [Get (url, [(''User-Agent'', UserAgent P),
                       (''Range'', ''bytes='' @ arg_decimal (length c) @ ''-'')])])"
    by (simp add: QtDownload_new_def QFile_open_def QFile_new_def StartRequest_def Let_def
          file_size_def)
qed

theorem C8_witness:
  "m_file (example_session [ReadyRead ''abc'']) =
     Some \<lparr>fileName = ''f.downloading'', isOpen = True, pos = 3\<rparr> \<and>
   map_option trace (StartRequest example_platform (example_session [ReadyRead ''abc''])) =
     Some [Get (''u'', [(''User-Agent'', ''MWM'')]),
           Get (''u'', [(''User-Agent'', ''MWM''), (''Range'', ''bytes=3-'')])] \<and>
   StartDownload example_platform empty_disk ''u'' ''f'' True True False [ReadyRead ''abc''] =
     Some (example_session [ReadyRead ''abc'']) \<and>
   map_option (\<lambda>s. requests (trace s))
     (dispatch example_platform (Finished 1 None) (example_session [ReadyRead ''abc''])) =
     Some [(''u'', [(''User-Agent'', ''MWM'')]),
           (''u'', [(''User-Agent'', ''MWM''), (''Range'', ''bytes=3-'')])] \<and>
   files partial_disk (''f'' @ DOWNLOADING_FILE_EXTENSION example_platform) =
     Some ''0123456789ab'' \<and>
   ''f'' @ DOWNLOADING_FILE_EXTENSION example_platform \<notin> set (locked partial_disk) \<and>
   map_option trace (QtDownload_new example_platform partial_disk ''u'' ''f'' True True True) =
     Some [Get (''u'', [(''User-Agent'', ''MWM''), (''Range'', ''bytes=12-'')])]"
  using C8_range_header [of "example_session [ReadyRead ''abc'']"
      "\<lparr>fileName = ''f.downloading'', isOpen = True, pos = 3\<rparr>" example_platform
      empty_disk "''u''" "''f''" True True False "[ReadyRead ''abc'']"
      "example_session [ReadyRead ''abc'']" "Finished 1 None"
      "the (dispatch example_platform (Finished 1 None) (example_session [ReadyRead ''abc'']))"
      "[]"]
    C8_range_header [of "example_session []"
      "\<lparr>fileName = ''f.downloading'', isOpen = True, pos = 0\<rparr>" example_platform
      partial_disk "''u''" "''f''" True True True "[]"
      "the (QtDownload_new example_platform partial_disk ''u'' ''f'' True True True)"
      "ReadyRead []"
      "the (QtDownload_new example_platform partial_disk ''u'' ''f'' True True True)"
      "''0123456789ab''"]
  by (simp add: example_session_def partial_disk_def expected_request_def eval_defs)

subsection \<open>Failure to open the temporary file\<close>

text \<open>
  C9. If the temporary file cannot be opened, the constructor invokes \<open>onFinish\<close> once
  (when the caller gave one) with \<open>EHttpDownloadFailed\<close>, schedules the deletion of the
  object, leaves the disk alone and issues no request; no later signal changes that. If the
  file can be opened, the constructor only issues the first request.
\<close>

theorem C9_open_failure:
  "(\<not> fst (QFile_open (if res then Append else WriteOnly)
            (QFile_new (fn @ DOWNLOADING_FILE_EXTENSION P)) d) \<longrightarrow>
      (\<exists>s0. QtDownload_new P d url fn fin prog res = Some s0 \<and>
         trace s0 = (if fin then [Finish url EHttpDownloadFailed] else []) \<and>
         m_reply s0 = None \<and> m_file s0 = None \<and> deleteLater s0 \<and> disk s0 = d \<and>
         StartDownload P d url fn fin prog res es = Some s0)) \<and>
   (fst (QFile_open (if res then Append else WriteOnly)
            (QFile_new (fn @ DOWNLOADING_FILE_EXTENSION P)) d) \<longrightarrow>
      (\<exists>s0 rq. QtDownload_new P d url fn fin prog res = Some s0 \<and>
         trace s0 = [Get rq] \<and> m_reply s0 = Some rq \<and> \<not> deleteLater s0))"
proof (intro conjI impI)
  assume fail: "\<not> fst (QFile_open (if res then Append else WriteOnly)
            (QFile_new (fn @ DOWNLOADING_FILE_EXTENSION P)) d)"
  obtain ok f d' where "QFile_open (if res then Append else WriteOnly)
            (QFile_new (fn @ DOWNLOADING_FILE_EXTENSION P)) d = (ok, f, d')"
    by (cases "QFile_open (if res then Append else WriteOnly)
            (QFile_new (fn @ DOWNLOADING_FILE_EXTENSION P)) d")
  with fail have "\<exists>s0. QtDownload_new P d url fn fin prog res = Some s0 \<and>
    trace s0 = (if fin then [Finish url EHttpDownloadFailed] else []) \<and>
    m_reply s0 = None \<and> m_file s0 = None \<and> deleteLater s0 \<and> disk s0 = d"
    by (simp add: QtDownload_new_def Let_def)
  then obtain s0 where s0: "QtDownload_new P d url fn fin prog res = Some s0"
    "trace s0 = (if fin then [Finish url EHttpDownloadFailed] else [])"
    "m_reply s0 = None" "m_file s0 = None" "deleteLater s0" "disk s0 = d"
    by blast
  from s0(1,3) have "StartDownload P d url fn fin prog res es = Some s0"
    by (simp add: StartDownload_def run_terminated)
  with s0 show "\<exists>s0. QtDownload_new P d url fn fin prog res = Some s0 \<and>
         trace s0 = (if fin then [Finish url EHttpDownloadFailed] else []) \<and>
         m_reply s0 = None \<and> m_file s0 = None \<and> deleteLater s0 \<and> disk s0 = d \<and>
         StartDownload P d url fn fin prog res es = Some s0"
    by blast
next
  assume "fst (QFile_open (if res then Append else WriteOnly)
            (QFile_new (fn @ DOWNLOADING_FILE_EXTENSION P)) d)"
  then show "\<exists>s0 rq. QtDownload_new P d url fn fin prog res = Some s0 \<and>
         trace s0 = [Get rq] \<and> m_reply s0 = Some rq \<and> \<not> deleteLater s0"
    by (auto simp: QtDownload_new_def Let_def StartRequest_def QFile_open_def QFile_new_def
          split: prod.splits if_splits OpenMode.splits)
qed

theorem C9_witness:
  "\<not> fst (QFile_open WriteOnly
           (QFile_new (''f'' @ DOWNLOADING_FILE_EXTENSION example_platform)) readonly_disk) \<and>
   map_option (\<lambda>s. (trace s, m_reply s, deleteLater s))
     (StartDownload example_platform readonly_disk ''u'' ''f'' True True False
        [ReadyRead ''ab'', Finished 0 None]) =
     Some ([Finish ''u'' EHttpDownloadFailed], None, True) \<and>
   fst (QFile_open WriteOnly
           (QFile_new (''f'' @ DOWNLOADING_FILE_EXTENSION example_platform)) empty_disk) \<and>
   map_option trace (QtDownload_new example_platform empty_disk ''u'' ''f'' True True False) =
     Some [Get (''u'', [(''User-Agent'', ''MWM'')])]"
  using C9_open_failure [of False "''f''" example_platform readonly_disk "''u''" True True
      "[ReadyRead ''ab'', Finished 0 None]"]
    C9_open_failure [of False "''f''" example_platform empty_disk "''u''" True True "[]"]
  by (simp add: readonly_disk_def eval_defs)

end
